theory Spec2Isabelle
  imports Complex_Main "HOL-Library.Multiset"
begin

text \<open>
  A shallow embedding of \<^verbatim>\<open>utils/compute_frequencies.py\<close>: the frequency,
  popmax, filtering-allele-frequency, project-max and age-histogram annotations computed
  over a variant-by-sample matrix. The query engine's expression language is modelled by
  its documented value semantics: a value may be missing (\<open>None\<close>), booleans combine by
  three-valued logic, a filter keeps the elements whose predicate is true, an aggregator
  is a function of the list of entries it sees. Python-level failures and failures of the
  engine are both values of type \<open>error\<close>.
\<close>

section \<open>Values of the expression language\<close>

datatype error =
    TypeError string
  | HailError string
  | UnboundLocalError string

definition ebind :: "error + 'a \<Rightarrow> ('a \<Rightarrow> error + 'b) \<Rightarrow> error + 'b" where
  "ebind m f = (case m of Inl e \<Rightarrow> Inl e | Inr x \<Rightarrow> f x)"

text \<open>Booleans with a missing value: \<open>&\<close>, \<open>|\<close> and \<open>~\<close> of the engine.\<close>

fun hl_and :: "bool option \<Rightarrow> bool option \<Rightarrow> bool option" where
  "hl_and (Some False) _ = Some False"
| "hl_and _ (Some False) = Some False"
| "hl_and (Some True) (Some True) = Some True"
| "hl_and _ _ = None"

fun hl_or :: "bool option \<Rightarrow> bool option \<Rightarrow> bool option" where
  "hl_or (Some True) _ = Some True"
| "hl_or _ (Some True) = Some True"
| "hl_or (Some False) (Some False) = Some False"
| "hl_or _ _ = None"

definition hl_not :: "bool option \<Rightarrow> bool option" where
  "hl_not b = map_option Not b"

definition hl_eq :: "'a option \<Rightarrow> 'a option \<Rightarrow> bool option" where
  "hl_eq a b =
     (case a of None \<Rightarrow> None
      | Some x \<Rightarrow> (case b of None \<Rightarrow> None | Some y \<Rightarrow> Some (x = y)))"

text \<open>\<open>hl.filter\<close>: an element is kept when the predicate is true, dropped when it is
  false or missing.\<close>

definition hl_filter :: "('a \<Rightarrow> bool option) \<Rightarrow> 'a list \<Rightarrow> 'a list" where
  "hl_filter p xs = filter (\<lambda>x. p x = Some True) xs"

text \<open>A dictionary from strings to strings, in insertion order. Its size counts keys.\<close>

type_synonym dict = "(string \<times> string) list"

definition dict_size :: "dict \<Rightarrow> nat" where
  "dict_size d = length (remdups (map fst d))"

definition dict_get :: "dict \<Rightarrow> string \<Rightarrow> string option" where
  "dict_get d k = map_of d k"

definition dict_contains :: "dict \<Rightarrow> string \<Rightarrow> bool" where
  "dict_contains d k = (map_of d k \<noteq> None)"

definition dict_index :: "dict \<Rightarrow> string \<Rightarrow> error + string" where
  "dict_index d k =
     (case map_of d k of
        None \<Rightarrow> Inl (HailError ''Key not found in dictionary'')
      | Some v \<Rightarrow> Inr v)"

definition set_contains :: "'a set \<Rightarrow> 'a option \<Rightarrow> bool option" where
  "set_contains S a = map_option (\<lambda>x. x \<in> S) a"

text \<open>
  \<open>hl.sorted(collection, key, reverse)\<close> orders by the comparison \<open>hl_comp\<close>: a missing
  key comes after every defined one, in both directions; defined keys compare by \<open><\<close>,
  reversed when \<open>reverse\<close> is set. The engine does not say how it orders elements with
  equal keys, so the sort is a parameter of the functions that call it, and
  \<open>hl_sorted_ok\<close> is what is known of it: the result is a permutation of the input in
  which no element comes before one that \<open>hl_comp\<close> puts strictly first.
  \<open>hl_stable_sorted\<close> is one such sort (insertion sort).
\<close>

fun hl_comp :: "bool \<Rightarrow> 'k::linorder option \<Rightarrow> 'k option \<Rightarrow> bool" where
  "hl_comp reverse None r = False"
| "hl_comp reverse (Some l) None = True"
| "hl_comp reverse (Some l) (Some r) = (if reverse then r < l else l < r)"

definition hl_sorted_ok ::
  "(('x \<Rightarrow> 'k::linorder option) \<Rightarrow> bool \<Rightarrow> 'x list \<Rightarrow> 'x list) \<Rightarrow> bool" where
  "hl_sorted_ok srt \<longleftrightarrow>
     (\<forall>key reverse xs. mset (srt key reverse xs) = mset xs \<and>
        sorted_wrt (\<lambda>a b. \<not> hl_comp reverse (key b) (key a)) (srt key reverse xs))"

fun hl_insort :: "('x \<Rightarrow> 'k::linorder option) \<Rightarrow> bool \<Rightarrow> 'x \<Rightarrow> 'x list \<Rightarrow> 'x list" where
  "hl_insort key reverse x [] = [x]"
| "hl_insort key reverse x (y # ys) =
     (if hl_comp reverse (key y) (key x) then y # hl_insort key reverse x ys else x # y # ys)"

definition hl_stable_sorted :: "('x \<Rightarrow> 'k::linorder option) \<Rightarrow> bool \<Rightarrow> 'x list \<Rightarrow> 'x list" where
  "hl_stable_sorted key reverse xs = foldr (hl_insort key reverse) xs []"

text \<open>\<open>af_le a b\<close>: frequency \<open>a\<close> is at most \<open>b\<close>, a missing frequency ranking lowest.\<close>

fun af_le :: "rat option \<Rightarrow> rat option \<Rightarrow> bool" where
  "af_le None b = True"
| "af_le (Some a) None = False"
| "af_le (Some a) (Some b) = (a \<le> b)"

text \<open>
  The struct of \<open>hl.agg.call_stats\<close>. The aggregator gives arrays indexed by allele
  (\<open>'c = int list\<close>, \<open>'f = rat list option\<close>); after \<open>annotate\<close> has picked one allele
  the same fields hold scalars (\<open>'c = int\<close>, \<open>'f = rat option\<close>). The allele frequency
  is missing when the allele number is zero; the 64-bit float \<open>AC / AN\<close> is modelled by
  the exact rational.
\<close>

record ('c, 'f) call_stats =
  AC :: 'c
  AF :: 'f
  AN :: int
  homozygote_count :: 'c

type_synonym freq_struct = "(int, rat option) call_stats"

text \<open>\<open>x[0].annotate(meta=x[1])\<close>: a frequency struct with its meta dictionary.\<close>

record ('c, 'f) freq_meta_struct = "('c, 'f) call_stats" +
  meta :: dict

section \<open>Arrays and aggregators of the engine\<close>

text \<open>Indexing an array fails out of range; indexing a missing array is missing.\<close>

definition hl_index :: "'a list \<Rightarrow> nat \<Rightarrow> error + 'a" where
  "hl_index xs i =
     (if i < length xs then Inr (xs ! i) else Inl (HailError ''array index out of bounds''))"

definition hl_index_opt :: "'a list option \<Rightarrow> nat \<Rightarrow> error + 'a option" where
  "hl_index_opt a i =
     (case a of None \<Rightarrow> Inr None | Some xs \<Rightarrow> ebind (hl_index xs i) (\<lambda>v. Inr (Some v)))"

fun etraverse :: "('a \<Rightarrow> error + 'b) \<Rightarrow> 'a list \<Rightarrow> error + 'b list" where
  "etraverse f [] = Inr []"
| "etraverse f (x # xs) = ebind (f x) (\<lambda>y. ebind (etraverse f xs) (\<lambda>ys. Inr (y # ys)))"

text \<open>A filter and a sort whose predicate or key may fail: the failure is the result.
  The sort computes every key first, sorts the pairs by key and drops the keys.\<close>

definition hl_filter_e :: "('a \<Rightarrow> error + bool option) \<Rightarrow> 'a list \<Rightarrow> error + 'a list" where
  "hl_filter_e p xs =
     ebind (etraverse (\<lambda>x. ebind (p x) (\<lambda>b. Inr (x, b))) xs)
       (\<lambda>xbs. Inr (map fst (filter (\<lambda>xb. snd xb = Some True) xbs)))"

definition hl_sorted_e ::
  "((('k::linorder) option \<times> 'x \<Rightarrow> 'k option) \<Rightarrow> bool \<Rightarrow> ('k option \<times> 'x) list \<Rightarrow>
      ('k option \<times> 'x) list) \<Rightarrow>
   ('x \<Rightarrow> error + 'k option) \<Rightarrow> bool \<Rightarrow> 'x list \<Rightarrow> error + 'x list" where
  "hl_sorted_e hl_sorted key reverse xs =
     ebind (etraverse (\<lambda>x. ebind (key x) (\<lambda>k. Inr (k, x))) xs)
       (\<lambda>kxs. Inr (map snd (hl_sorted fst reverse kxs)))"

text \<open>
  A genotype call is an unphased pair of allele indices; a missing call is \<open>None\<close>.
  \<open>hl.agg.call_stats(gt, alleles)\<close> over the calls an aggregation sees: per allele the
  number of times it is called and the number of calls homozygous for it, the allele
  number (two per defined call) and the allele frequencies, missing when the allele
  number is zero. Calls are taken to index into the alleles of their row.
\<close>

type_synonym call = "nat \<times> nat"

definition hl_call_stats ::
  "call option list \<Rightarrow> nat \<Rightarrow> (int list, rat list option) call_stats" where
  "hl_call_stats gts n_alleles =
     (let calls = List.map_filter id gts;
          ac = map (\<lambda>a. int (length (filter (\<lambda>c. fst c = a) calls)) +
                         int (length (filter (\<lambda>c. snd c = a) calls))) [0..<n_alleles];
          an = 2 * int (length calls);
          hom = map (\<lambda>a. int (length (filter (\<lambda>c. fst c = a \<and> snd c = a) calls)))
                  [0..<n_alleles]
      in \<lparr>AC = ac,
          AF = (if an = 0 then None else Some (map (\<lambda>c. of_int c / of_int an) ac)),
          AN = an,
          homozygote_count = hom\<rparr>)"

text \<open>
  \<open>hl.agg.filter(cond, agg)\<close> aggregates over the records whose condition is true;
  \<open>hl.array(hl.agg.group_by(key, agg))\<close> gives one pair per key value with the
  aggregate of the records of that key. The engine orders the pairs by key; here they
  stand in the order \<open>remdups\<close> leaves, and no result below depends on the order.
\<close>

definition agg_filter :: "('e \<Rightarrow> bool option) \<Rightarrow> ('e list \<Rightarrow> 'a) \<Rightarrow> 'e list \<Rightarrow> 'a" where
  "agg_filter cond agg es = agg (hl_filter cond es)"

definition agg_group_by :: "('e \<Rightarrow> 'k) \<Rightarrow> ('e list \<Rightarrow> 'a) \<Rightarrow> 'e list \<Rightarrow> ('k \<times> 'a) list" where
  "agg_group_by key agg es =
     map (\<lambda>k. (k, agg (filter (\<lambda>e. key e = k) es))) (remdups (map key es))"

section \<open>popmax\<close>

record ('c, 'f) popmax_struct = "('c, 'f) call_stats" +
  pop :: string

definition popmax_expr ::
  "(((int, rat option) freq_meta_struct \<Rightarrow> rat option) \<Rightarrow> bool \<Rightarrow>
      (int, rat option) freq_meta_struct list \<Rightarrow> (int, rat option) freq_meta_struct list) \<Rightarrow>
   freq_struct list \<Rightarrow> dict list \<Rightarrow> string set \<Rightarrow>
   error + (int, rat option) popmax_struct option" where
  "popmax_expr hl_sorted freq freq_meta populations =
     (let pops_to_use = populations;
          freq = map (\<lambda>x. call_stats.extend (fst x) (freq_meta_struct.fields (snd x)))
                   (zip freq freq_meta);
          freq_filtered = hl_filter
            (\<lambda>f. hl_and (hl_and (hl_and (Some (dict_size (meta f) = 2))
                                        (hl_eq (dict_get (meta f) ''group'') (Some ''adj'')))
                                (set_contains pops_to_use (dict_get (meta f) ''pop'')))
                        (Some (AC f > 0)))
            freq;
          sorted_freqs = hl_sorted AF True freq_filtered
      in if length sorted_freqs > 0
         then ebind (dict_index (meta (sorted_freqs ! 0)) ''pop'')
                (\<lambda>p. Inr (Some \<lparr>AC = AC (sorted_freqs ! 0), AF = AF (sorted_freqs ! 0),
                                  AN = AN (sorted_freqs ! 0),
                                  homozygote_count = homozygote_count (sorted_freqs ! 0),
                                  pop = p\<rparr>))
         else Inr None)"

text \<open>
  The spec's words for popmax: a frequency record is eligible when its meta has exactly
  two keys, its group is \<open>adj\<close>, its population is in the allowed set and its allele
  count is positive.
\<close>

definition popmax_eligible :: "string set \<Rightarrow> freq_struct \<Rightarrow> dict \<Rightarrow> bool" where
  "popmax_eligible populations f m \<longleftrightarrow>
     dict_size m = 2 \<and> dict_get m ''group'' = Some ''adj'' \<and>
     (\<exists>p. dict_get m ''pop'' = Some p \<and> p \<in> populations) \<and> AC f > 0"

section \<open>Filtering allele frequency\<close>

text \<open>
  The struct \<open>hl.struct(meta=f.meta, faf95=..., faf99=...)\<close>; its \<open>meta\<close> field is
  called \<open>faf_meta\<close> here. \<open>hl.experimental.filtering_allele_frequency\<close> is the engine's
  numeric routine and \<open>locus.in_autosome_or_par()\<close> depends on the reference genome:
  both are parameters. A missing locus makes the test missing.
\<close>

record 'r faf_struct =
  faf_meta :: dict
  faf95 :: 'r
  faf99 :: 'r

definition faf_expr ::
  "(int \<Rightarrow> int \<Rightarrow> rat \<Rightarrow> 'r) \<Rightarrow> ('l \<Rightarrow> bool) \<Rightarrow>
   freq_struct list \<Rightarrow> dict list \<Rightarrow> 'l option \<Rightarrow> string set \<Rightarrow> 'r faf_struct list" where
  "faf_expr filtering_allele_frequency in_autosome_or_par freq freq_meta locus populations =
     (let pops_to_use = populations;
          freq = map (\<lambda>x. call_stats.extend (fst x) (freq_meta_struct.fields (snd x)))
                   (zip freq freq_meta);
          freqs_to_use = hl_filter
            (\<lambda>f. hl_or
               (hl_or
                  (hl_and (Some (dict_size (meta f) = 1))
                          (hl_eq (dict_get (meta f) ''group'') (Some ''adj'')))
                  (hl_and (hl_and (Some (dict_size (meta f) = 2))
                                  (hl_eq (dict_get (meta f) ''group'') (Some ''adj'')))
                          (set_contains pops_to_use (dict_get (meta f) ''pop''))))
               (hl_and (hl_not (map_option in_autosome_or_par locus))
                  (hl_or
                     (hl_and (hl_and (Some (dict_size (meta f) = 2))
                                     (hl_eq (dict_get (meta f) ''group'') (Some ''adj'')))
                             (Some (dict_contains (meta f) ''sex'')))
                     (hl_and (hl_and (hl_and (Some (dict_size (meta f) = 3))
                                             (hl_eq (dict_get (meta f) ''group'') (Some ''adj'')))
                                     (set_contains pops_to_use (dict_get (meta f) ''pop'')))
                             (Some (dict_contains (meta f) ''sex''))))))
            freq
      in map (\<lambda>f. \<lparr>faf_meta = meta f,
                     faf95 = filtering_allele_frequency (AC f) (AN f) (95 / 100),
                     faf99 = filtering_allele_frequency (AC f) (AN f) (99 / 100)\<rparr>)
           freqs_to_use)"

text \<open>
  The spec's words for the eligible groups: the group is \<open>adj\<close> and the meta is the
  global one (size 1), or a population of the allowed set (size 2), or, on a locus known
  to lie outside the autosomes and pseudoautosomal regions, a meta with a \<open>sex\<close> key of
  size 2, or of size 3 with a population of the allowed set.
\<close>

definition pop_allowed :: "string set \<Rightarrow> dict \<Rightarrow> bool" where
  "pop_allowed populations m \<longleftrightarrow> (\<exists>p. dict_get m ''pop'' = Some p \<and> p \<in> populations)"

definition not_autosome_or_par :: "('l \<Rightarrow> bool) \<Rightarrow> 'l option \<Rightarrow> bool" where
  "not_autosome_or_par in_autosome_or_par locus \<longleftrightarrow>
     (case locus of None \<Rightarrow> False | Some l \<Rightarrow> \<not> in_autosome_or_par l)"

definition faf_eligible :: "string set \<Rightarrow> bool \<Rightarrow> dict \<Rightarrow> bool" where
  "faf_eligible populations non_par m \<longleftrightarrow>
     dict_get m ''group'' = Some ''adj'' \<and>
     (dict_size m = 1 \<or>
      (dict_size m = 2 \<and> pop_allowed populations m) \<or>
      (non_par \<and> dict_contains m ''sex'' \<and>
         (dict_size m = 2 \<or> (dict_size m = 3 \<and> pop_allowed populations m))))"

section \<open>Project max\<close>

record ('c, 'f) project_max_struct = "('c, 'f) call_stats" +
  project :: "string option"

text \<open>
  \<open>project_max_expr\<close> is an aggregation over the entries of one row: \<open>entries\<close> holds,
  for each sample, the value of \<open>project_expr\<close> and of \<open>gt_expr\<close>.
\<close>

definition project_max_expr ::
  "((rat option \<times> string option \<times> (int list, rat list option) call_stats \<Rightarrow> rat option) \<Rightarrow>
      bool \<Rightarrow> (rat option \<times> string option \<times> (int list, rat list option) call_stats) list \<Rightarrow>
      (rat option \<times> string option \<times> (int list, rat list option) call_stats) list) \<Rightarrow>
   (string option \<times> call option) list \<Rightarrow> string list \<Rightarrow> nat \<Rightarrow>
   error + (int list, rat option list) project_max_struct list list option" where
  "project_max_expr hl_sorted entries alleles_expr n_projects =
     (let n_alleles = length alleles_expr;
          project_cs = agg_group_by fst (\<lambda>es. hl_call_stats (map snd es) n_alleles) entries
      in if n_alleles > 1
         then ebind
           (etraverse
              (\<lambda>ai.
                 ebind (hl_filter_e
                          (\<lambda>x. ebind (hl_index_opt (AF (snd x)) ai)
                                  (\<lambda>af. Inr (map_option (\<lambda>a. a > 0) af)))
                          project_cs)
                   (\<lambda>filtered.
                 ebind (hl_sorted_e hl_sorted
                          (\<lambda>x. ebind (hl_index_opt (AF (snd x)) ai)
                                  (\<lambda>af. Inr (map_option uminus af)))
                          False filtered)
                   (\<lambda>sorted_cs.
                 etraverse
                   (\<lambda>x.
                      ebind (hl_index (AC (snd x)) 0) (\<lambda>ac0.
                      ebind (hl_index (AC (snd x)) ai) (\<lambda>ac1.
                      ebind (hl_index_opt (AF (snd x)) 0) (\<lambda>af0.
                      ebind (hl_index_opt (AF (snd x)) ai) (\<lambda>af1.
                      ebind (hl_index (homozygote_count (snd x)) 0) (\<lambda>hom0.
                      ebind (hl_index (homozygote_count (snd x)) ai) (\<lambda>hom1.
                        Inr \<lparr>AC = [ac0, ac1], AF = [af0, af1], AN = AN (snd x),
                             homozygote_count = [hom0, hom1], project = fst x\<rparr>)))))))
                   (take n_projects sorted_cs))))
              [1..<n_alleles])
           (\<lambda>r. Inr (Some r))
         else Inr None)"

text \<open>
  The spec's words for project max: the per-project call statistics, the allele frequency
  of one allele in them (missing when the project has no defined call), and the struct
  that pairs the reference allele's value with that of allele \<open>ai\<close>.
\<close>

definition per_project_call_stats ::
  "(string option \<times> call option) list \<Rightarrow> nat \<Rightarrow>
   (string option \<times> (int list, rat list option) call_stats) list" where
  "per_project_call_stats entries n_alleles =
     map (\<lambda>p. (p, hl_call_stats (map snd (filter (\<lambda>e. fst e = p) entries)) n_alleles))
       (remdups (map fst entries))"

definition af_of :: "(int list, rat list option) call_stats \<Rightarrow> nat \<Rightarrow> rat option" where
  "af_of cs ai =
     (case AF cs of None \<Rightarrow> None
      | Some a \<Rightarrow> if ai < length a then Some (a ! ai) else None)"

definition af_positive :: "(int list, rat list option) call_stats \<Rightarrow> nat \<Rightarrow> bool" where
  "af_positive cs ai \<longleftrightarrow> (\<exists>a. af_of cs ai = Some a \<and> a > 0)"

definition pair_with_reference ::
  "nat \<Rightarrow> string option \<times> (int list, rat list option) call_stats \<Rightarrow>
   (int list, rat option list) project_max_struct" where
  "pair_with_reference ai x =
     \<lparr>AC = [AC (snd x) ! 0, AC (snd x) ! ai],
      AF = [af_of (snd x) 0, af_of (snd x) ai],
      AN = AN (snd x),
      homozygote_count = [homozygote_count (snd x) ! 0, homozygote_count (snd x) ! ai],
      project = fst x\<rparr>"

text \<open>The projects with a positive frequency of allele \<open>ai\<close>, as the engine's sort
  orders them by that frequency, highest first.\<close>

definition sorted_projects ::
  "((rat option \<times> string option \<times> (int list, rat list option) call_stats \<Rightarrow> rat option) \<Rightarrow>
      bool \<Rightarrow> (rat option \<times> string option \<times> (int list, rat list option) call_stats) list \<Rightarrow>
      (rat option \<times> string option \<times> (int list, rat list option) call_stats) list) \<Rightarrow>
   (string option \<times> call option) list \<Rightarrow> nat \<Rightarrow> nat \<Rightarrow>
   (string option \<times> (int list, rat list option) call_stats) list" where
  "sorted_projects hl_sorted entries n_alleles ai =
     map snd (hl_sorted fst False
       (map (\<lambda>x. (map_option uminus (af_of (snd x) ai), x))
          (filter (\<lambda>x. af_positive (snd x) ai) (per_project_call_stats entries n_alleles))))"

section \<open>The matrix table\<close>

text \<open>
  A matrix table has one column per sample and one row per variant; a row holds one
  entry per column, in the order of the columns. The column fields \<open>meta.pop\<close>,
  \<open>meta.sex\<close>, ... are written \<open>meta_pop\<close>, \<open>meta_sex\<close>, ...; the column key \<open>s\<close> is
  \<open>col_s\<close>. \<open>downsampling\<close> is the struct \<open>_generate_downsamplings_cumulative\<close> adds;
  it is missing on a column that has none.
\<close>

record downsampling_struct =
  global_idx :: int
  pop_idx :: int

record sample =
  col_s :: string
  meta_pop :: "string option"
  meta_sex :: "string option"
  meta_subpop :: "string option"
  meta_qc_platform :: "int option"
  meta_project_id :: "string option"
  meta_age :: "rat option"
  downsampling :: "downsampling_struct option"

record entry =
  GT :: "call option"
  adj :: "bool option"

record 'l variant =
  row_locus :: 'l
  row_alleles :: "string list"
  row_entries :: "entry list"

record 'l matrix_table =
  cols :: "sample list"
  rows :: "'l variant list"

text \<open>Python's \<open>str\<close> of an integer, \<open>Counter\<close> (keys in the order of their first
  occurrence) and \<open>list.insert\<close>.\<close>

fun str_nat :: "nat \<Rightarrow> string" where
  "str_nat n =
     (if n < 10 then [''0123456789'' ! n]
      else str_nat (n div 10) @ [''0123456789'' ! (n mod 10)])"

declare str_nat.simps [simp del]

definition str_int :: "int \<Rightarrow> string" where
  "str_int i = (if i < 0 then CHR ''-'' # str_nat (nat (- i)) else str_nat (nat i))"

definition py_counter :: "'a list \<Rightarrow> ('a \<times> nat) list" where
  "py_counter xs = map (\<lambda>k. (k, count_list xs k)) (rev (remdups (rev xs)))"

definition py_insert :: "nat \<Rightarrow> 'a \<Rightarrow> 'a list \<Rightarrow> 'a list" where
  "py_insert i x xs = take i xs @ [x] @ drop i xs"

definition dict_set :: "dict \<Rightarrow> string \<Rightarrow> string \<Rightarrow> dict" where
  "dict_set d k v =
     (if dict_contains d k then map (\<lambda>kv. if fst kv = k then (k, v) else kv) d
      else d @ [(k, v)])"

section \<open>Downsampling assignment\<close>

text \<open>
  \<open>_generate_downsamplings_cumulative\<close>. Its helper \<open>get_sample_data\<close> belongs to the
  repository but not to the file: \<open>pop_data\<close>, the list
  \<open>[x[0] for x in get_sample_data(mt, [mt.meta.pop])]\<close>, is a parameter. The uniform
  draw \<open>hl.rand_unif(0, 1)\<close> of each sample is the parameter \<open>r\<close>. \<open>order_by\<close> sorts by
  the draw (stably; equal draws have probability zero), \<open>add_index\<close> numbers the rows of
  a table from zero, \<open>union\<close> concatenates the tables and the join \<open>global_ht[mt.s]\<close>
  finds the row of a sample by its key. Of the joined struct only the two indices are
  kept. With no population at all the loop never binds \<open>global_ht\<close> and the next line
  raises.
\<close>

definition add_index :: "'a list \<Rightarrow> ('a \<times> int) list" where
  "add_index xs = zip xs (map int [0..<length xs])"

definition generate_downsamplings_cumulative ::
  "(sample \<Rightarrow> rat) \<Rightarrow> string list \<Rightarrow> 'l matrix_table \<Rightarrow> int list \<Rightarrow>
   error + ('l matrix_table \<times> int list)" where
  "generate_downsamplings_cumulative r pop_data mt downsamplings =
     (let pops = py_counter pop_data;
          downsamplings = remdups (downsamplings @ map (\<lambda>kv. int (snd kv)) pops);
          downsamplings =
            sort (filter (\<lambda>x. x \<le> sum_list (map (\<lambda>kv. int (snd kv)) pops)) downsamplings);
          downsamplings =
            sort (filter (\<lambda>x. x \<le> sum_list (map (\<lambda>kv. int (snd kv)) pops)) downsamplings);
          ht = cols mt;
          ht = add_index (sort_key r ht)
      in if pops = []
         then Inl (UnboundLocalError ''local variable global_ht referenced before assignment'')
         else
           (let global_ht =
                  concat (map (\<lambda>pop. add_index
                                  (hl_filter (\<lambda>row. hl_eq (meta_pop (fst row)) (Some pop)) ht))
                            (map fst pops))
            in Inr (mt\<lparr>cols :=
                        map (\<lambda>c. c\<lparr>downsampling :=
                                      map_option
                                        (\<lambda>row. \<lparr>global_idx = snd (fst row), pop_idx = snd row\<rparr>)
                                        (find (\<lambda>row. col_s (fst (fst row)) = col_s c) global_ht)\<rparr>)
                          (cols mt)\<rparr>,
                    downsamplings)))"

text \<open>
  A Python call of the function. The second positional parameter has no default: a call
  that does not supply it raises before the body runs.
\<close>

definition call_generate_downsamplings_cumulative ::
  "(sample \<Rightarrow> rat) \<Rightarrow> string list \<Rightarrow> 'l matrix_table \<Rightarrow> int list option \<Rightarrow>
   error + ('l matrix_table \<times> int list)" where
  "call_generate_downsamplings_cumulative r pop_data mt downsamplings =
     (case downsamplings of
        None \<Rightarrow> Inl (TypeError
          ''_generate_downsamplings_cumulative() missing 1 required positional argument: downsamplings'')
      | Some ds \<Rightarrow> generate_downsamplings_cumulative r pop_data mt ds)"

section \<open>Frequency data\<close>

text \<open>
  The primitives of the engine that \<open>generate_frequency_data\<close> reaches: the sort of
  \<open>popmax_expr\<close> and of \<open>project_max_expr\<close>, the filtering allele frequency, the test
  of a locus against the reference genome, the histogram aggregator \<open>hl.agg.hist\<close> (given
  the values it sees, the range and the number of bins) and the uniform draw; and with
  them \<open>eng_pop_data\<close>, what the repository's helper \<open>get_sample_data\<close> gives for the
  populations of the samples.
\<close>

record ('l, 'r, 'h) engine =
  eng_sorted_freq ::
    "((int, rat option) freq_meta_struct \<Rightarrow> rat option) \<Rightarrow> bool \<Rightarrow>
       (int, rat option) freq_meta_struct list \<Rightarrow> (int, rat option) freq_meta_struct list"
  eng_sorted_project ::
    "(rat option \<times> string option \<times> (int list, rat list option) call_stats \<Rightarrow> rat option) \<Rightarrow>
       bool \<Rightarrow> (rat option \<times> string option \<times> (int list, rat list option) call_stats) list \<Rightarrow>
       (rat option \<times> string option \<times> (int list, rat list option) call_stats) list"
  eng_filtering_allele_frequency :: "int \<Rightarrow> int \<Rightarrow> rat \<Rightarrow> 'r"
  eng_in_autosome_or_par :: "'l \<Rightarrow> bool"
  eng_hist :: "rat option list \<Rightarrow> rat \<Rightarrow> rat \<Rightarrow> nat \<Rightarrow> 'h"
  eng_rand_unif :: "sample \<Rightarrow> rat"
  eng_pop_data :: "sample list \<Rightarrow> string list"

text \<open>The two tables of the result. A table has globals and rows; the fields of a row of
  the variant table are written \<open>row_freq\<close>, \<open>row_popmax\<close>, ...; a field that is only
  added under a flag is \<open>None\<close> when the flag is off. Evaluating a row may fail.\<close>

record globals_struct =
  g_freq_meta :: "dict list"
  g_downsamplings :: "int list option"

record 'row table =
  tbl_globals :: globals_struct
  tbl_rows :: "'row list"

record sample_data_row =
  sd_s :: string
  group_membership :: "bool option list"
  project_id :: "string option"
  age :: "rat option"

record ('l, 'r, 'h) freq_row =
  fr_locus :: 'l
  fr_alleles :: "string list"
  row_freq :: "freq_struct list"
  row_age_hist_het :: "'h option"
  row_age_hist_hom :: "'h option"
  row_popmax :: "(int, rat option) popmax_struct option"
  row_faf :: "'r faf_struct list option"
  row_project_max :: "(int list, rat option list) project_max_struct list option option"

text \<open>\<open>cut_data\<close>: the populations with their sample counts, the sexes, the pairs of
  sub-population and population and, when asked for, the platforms, each over the
  samples on which the field is defined. The engine does not say in which order a
  dictionary or a set is iterated; here it is the order \<open>remdups\<close> leaves.\<close>

record cut_data_struct =
  cd_pop :: "(string \<times> nat) list"
  cd_sex :: "string list"
  cd_subpop :: "(string \<times> string) list"
  cd_platform :: "int list"

definition hl_counter :: "'a list \<Rightarrow> ('a \<times> nat) list" where
  "hl_counter xs = map (\<lambda>k. (k, count_list xs k)) (remdups xs)"

definition aggregate_cut_data :: "bool \<Rightarrow> sample list \<Rightarrow> cut_data_struct" where
  "aggregate_cut_data calculate_by_platform cs =
     \<lparr>cd_pop = hl_counter (List.map_filter meta_pop cs),
      cd_sex = remdups (List.map_filter meta_sex cs),
      cd_subpop = remdups (List.map_filter
                    (\<lambda>c. case meta_subpop c of None \<Rightarrow> None
                         | Some sp \<Rightarrow> (case meta_pop c of None \<Rightarrow> None | Some p \<Rightarrow> Some (sp, p)))
                    cs),
      cd_platform = (if calculate_by_platform
                     then remdups (List.map_filter meta_qc_platform cs) else [])\<rparr>"

text \<open>\<open>sample_group_filters\<close>: each group is a meta dictionary and a predicate on the
  sample. \<open>downsamplings\<close> is \<open>None\<close> when \<open>calculate_downsampling\<close> is off.\<close>

definition sample_group_filters ::
  "bool \<Rightarrow> cut_data_struct \<Rightarrow> int list option \<Rightarrow> (dict \<times> (sample \<Rightarrow> bool option)) list" where
  "sample_group_filters calculate_by_platform cut_data downsamplings =
     [([], \<lambda>c. Some True)] @
     ([([(''pop'', p)], \<lambda>c. hl_eq (meta_pop c) (Some p)).
         p \<leftarrow> map fst (cd_pop cut_data)] @
      [([(''sex'', sex)], \<lambda>c. hl_eq (meta_sex c) (Some sex)).
         sex \<leftarrow> cd_sex cut_data] @
      [([(''pop'', p), (''sex'', sex)],
          \<lambda>c. hl_and (hl_eq (meta_sex c) (Some sex)) (hl_eq (meta_pop c) (Some p))).
         sex \<leftarrow> cd_sex cut_data, p \<leftarrow> map fst (cd_pop cut_data)] @
      [([(''subpop'', fst subpop), (''pop'', snd subpop)],
          \<lambda>c. hl_eq (meta_subpop c) (Some (fst subpop))).
         subpop \<leftarrow> cd_subpop cut_data]) @
     (if calculate_by_platform
      then [([(''platform'', str_int platform)],
               \<lambda>c. hl_eq (meta_qc_platform c) (Some platform)).
              platform \<leftarrow> cd_platform cut_data]
      else []) @
     (case downsamplings of
        None \<Rightarrow> []
      | Some dss \<Rightarrow>
          [([(''downsampling'', str_int ds), (''pop'', ''global'')],
              \<lambda>c. map_option (\<lambda>d. global_idx d < ds) (downsampling c)).
             ds \<leftarrow> dss] @
          [([(''downsampling'', str_int ds), (''pop'', fst pc)],
              \<lambda>c. hl_and (map_option (\<lambda>d. pop_idx d < ds) (downsampling c))
                         (hl_eq (meta_pop c) (Some (fst pc)))).
             ds \<leftarrow> dss, pc \<leftarrow> cd_pop cut_data, ds \<le> int (snd pc)])"

definition select_cols ::
  "(dict \<times> (sample \<Rightarrow> bool option)) list \<Rightarrow> sample \<Rightarrow> sample_data_row" where
  "select_cols filters c =
     \<lparr>sd_s = col_s c,
      group_membership = map (\<lambda>x. snd x c) filters,
      project_id = meta_project_id c,
      age = meta_age c\<rparr>"

definition get_meta_expressions :: "(dict \<times> (sample \<Rightarrow> bool option)) list \<Rightarrow> dict list" where
  "get_meta_expressions filters =
     py_insert 1 [(''group'', ''raw'')] (map (\<lambda>x. dict_set (fst x) ''group'' ''adj'') filters)"

text \<open>
  \<open>get_freq_expressions\<close> for one row: \<open>ces\<close> pairs every column with its entry.
  \<open>n_groups\<close> is the length of \<open>group_membership\<close>, so the index \<open>i\<close> of the array
  aggregation is in range. \<open>cs.AC[1]\<close> fails on a row with fewer than two alleles.
\<close>

definition annotate_allele ::
  "(int list, rat list option) call_stats \<Rightarrow> error + freq_struct" where
  "annotate_allele cs =
     ebind (hl_index (AC cs) 1) (\<lambda>ac.
     ebind (hl_index_opt (AF cs) 1) (\<lambda>af.
     ebind (hl_index (homozygote_count cs) 1) (\<lambda>hom.
       Inr \<lparr>AC = ac, AF = af, AN = AN cs, homozygote_count = hom\<rparr>)))"

definition get_freq_expressions ::
  "(sample_data_row \<times> entry) list \<Rightarrow> nat \<Rightarrow> nat \<Rightarrow> error + freq_struct list" where
  "get_freq_expressions ces n_alleles n_groups =
     (let adj_freq_expressions =
            map (\<lambda>i. agg_filter
                        (\<lambda>ce. hl_and (group_membership (fst ce) ! i) (adj (snd ce)))
                        (\<lambda>xs. hl_call_stats (map (\<lambda>ce. GT (snd ce)) xs) n_alleles) ces)
              [0..<n_groups]
      in etraverse annotate_allele
           (take 1 adj_freq_expressions @
            [hl_call_stats (map (\<lambda>ce. GT (snd ce)) ces) n_alleles] @
            drop 1 adj_freq_expressions))"

text \<open>
  Names for two parts of \<open>get_freq_expressions\<close>: the \<open>adj\<close> call statistics of the
  groups, and the struct \<open>annotate\<close> builds from allele 1 where that allele exists.
\<close>

definition adj_call_stats ::
  "(sample_data_row \<times> entry) list \<Rightarrow> nat \<Rightarrow> nat \<Rightarrow> (int list, rat list option) call_stats list" where
  "adj_call_stats ces n_alleles n_groups =
     map (\<lambda>i. agg_filter
                 (\<lambda>ce. hl_and (group_membership (fst ce) ! i) (adj (snd ce)))
                 (\<lambda>xs. hl_call_stats (map (\<lambda>ce. GT (snd ce)) xs) n_alleles) ces)
       [0..<n_groups]"

definition alt_allele_stats :: "(int list, rat list option) call_stats \<Rightarrow> freq_struct" where
  "alt_allele_stats cs =
     \<lparr>AC = AC cs ! 1, AF = map_option (\<lambda>a. a ! 1) (AF cs), AN = AN cs,
      homozygote_count = homozygote_count cs ! 1\<rparr>"

definition is_het :: "call option \<Rightarrow> bool option" where
  "is_het gt = map_option (\<lambda>c. fst c \<noteq> snd c) gt"

definition is_hom_var :: "call option \<Rightarrow> bool option" where
  "is_hom_var gt = map_option (\<lambda>c. fst c = snd c \<and> fst c > 0) gt"

definition annotate_row ::
  "('l, 'r, 'h) engine \<Rightarrow> bool \<Rightarrow> bool \<Rightarrow> bool \<Rightarrow> sample_data_row list \<Rightarrow> dict list \<Rightarrow>
   nat \<Rightarrow> string set \<Rightarrow> 'l variant \<Rightarrow> error + ('l, 'r, 'h) freq_row" where
  "annotate_row eng calculate_faf calculate_age_hists calculate_project_max scols freq_meta
       n_groups pops v =
     (let ces = zip scols (row_entries v) in
      ebind (get_freq_expressions ces (length (row_alleles v)) n_groups) (\<lambda>freq.
      ebind (popmax_expr (eng_sorted_freq eng) freq freq_meta pops) (\<lambda>popmax.
      ebind (if calculate_project_max
             then ebind (project_max_expr (eng_sorted_project eng)
                           (map (\<lambda>ce. (project_id (fst ce), GT (snd ce))) ces)
                           (row_alleles v) 5)
                    (\<lambda>pm. case pm of
                            None \<Rightarrow> Inr (Some None)
                          | Some xs \<Rightarrow> ebind (hl_index xs 0) (\<lambda>x. Inr (Some (Some x))))
             else Inr None) (\<lambda>project_max.
        Inr \<lparr>fr_locus = row_locus v,
             fr_alleles = row_alleles v,
             row_freq = freq,
             row_age_hist_het =
               (if calculate_age_hists
                then Some (agg_filter (\<lambda>ce. hl_and (adj (snd ce)) (is_het (GT (snd ce))))
                             (\<lambda>xs. eng_hist eng (map (\<lambda>ce. age (fst ce)) xs) 30 80 10) ces)
                else None),
             row_age_hist_hom =
               (if calculate_age_hists
                then Some (agg_filter (\<lambda>ce. hl_and (adj (snd ce)) (is_hom_var (GT (snd ce))))
                             (\<lambda>xs. eng_hist eng (map (\<lambda>ce. age (fst ce)) xs) 30 80 10) ces)
                else None),
             row_popmax = popmax,
             row_faf =
               (if calculate_faf
                then Some (faf_expr (eng_filtering_allele_frequency eng)
                             (eng_in_autosome_or_par eng) freq freq_meta
                             (Some (row_locus v)) pops)
                else None),
             row_project_max = project_max\<rparr>))))"

text \<open>
  \<open>generate_frequency_data\<close>, in two parts: the body from \<open>cut_dict\<close> on, given the
  matrix table and the downsamplings the first statement leaves (\<open>None\<close> when
  \<open>calculate_downsampling\<close> is off), and the function itself. The call of
  \<open>_generate_downsamplings_cumulative\<close> supplies the matrix table only.
  \<open>pops_to_remove_for_popmax\<close> is \<open>None\<close> by default and is iterated as it is. An error
  of the result itself is an exception raised while the function runs; an error inside a
  row is a failure of the engine when the returned table is evaluated.
\<close>

definition generate_frequency_data_body ::
  "('l, 'r, 'h) engine \<Rightarrow> 'l matrix_table \<Rightarrow> int list option \<Rightarrow> bool \<Rightarrow> bool \<Rightarrow> bool \<Rightarrow>
   bool \<Rightarrow> string list option \<Rightarrow>
   error + ((error + ('l, 'r, 'h) freq_row) table \<times> sample_data_row table)" where
  "generate_frequency_data_body eng mt downsamplings calculate_faf calculate_age_hists
       calculate_by_platform calculate_project_max pops_to_remove_for_popmax =
     (let cut_data = aggregate_cut_data calculate_by_platform (cols mt);
          filters = sample_group_filters calculate_by_platform cut_data downsamplings;
          scols = map (select_cols filters) (cols mt);
          global_expression =
            \<lparr>g_freq_meta = get_meta_expressions filters, g_downsamplings = downsamplings\<rparr>;
          sample_data = \<lparr>tbl_globals = global_expression, tbl_rows = scols\<rparr>
      in ebind (case pops_to_remove_for_popmax of
                  None \<Rightarrow> Inl (TypeError ''NoneType object is not iterable'')
                | Some xs \<Rightarrow> Inr (set (map fst (cd_pop cut_data)) - set xs)) (\<lambda>pops.
           Inr (\<lparr>tbl_globals = global_expression,
                 tbl_rows = map (annotate_row eng calculate_faf calculate_age_hists
                                   calculate_project_max scols
                                   (g_freq_meta global_expression) (length filters) pops)
                              (rows mt)\<rparr>,
                sample_data)))"

definition generate_frequency_data ::
  "('l, 'r, 'h) engine \<Rightarrow> 'l matrix_table \<Rightarrow> bool \<Rightarrow> bool \<Rightarrow> bool \<Rightarrow> bool \<Rightarrow> bool \<Rightarrow>
   string list option \<Rightarrow>
   error + ((error + ('l, 'r, 'h) freq_row) table \<times> sample_data_row table)" where
  "generate_frequency_data eng mt calculate_faf calculate_age_hists calculate_by_platform
       calculate_downsampling calculate_project_max pops_to_remove_for_popmax =
     ebind (if calculate_downsampling
            then ebind (call_generate_downsamplings_cumulative (eng_rand_unif eng)
                          (eng_pop_data eng (cols mt)) mt None)
                   (\<lambda>res. Inr (fst res, Some (snd res)))
            else Inr (mt, None)) (\<lambda>md.
       generate_frequency_data_body eng (fst md) (snd md) calculate_faf calculate_age_hists
         calculate_by_platform calculate_project_max pops_to_remove_for_popmax)"

section \<open>The spec's words for the frequency data\<close>

text \<open>
  The sample group a meta dictionary describes: the samples whose population, sex,
  sub-population and platform are the ones the dictionary names; under group \<open>adj\<close> the
  entries of those samples that pass the \<open>adj\<close> filter, under group \<open>raw\<close> every entry.
  \<open>described_call_stats\<close> aggregates a row over that group.
\<close>

definition described_sample :: "dict \<Rightarrow> sample \<Rightarrow> bool" where
  "described_sample m c \<longleftrightarrow>
     list_all (\<lambda>kv.
        (if fst kv = ''pop'' then meta_pop c = Some (snd kv)
         else if fst kv = ''sex'' then meta_sex c = Some (snd kv)
         else if fst kv = ''subpop'' then meta_subpop c = Some (snd kv)
         else if fst kv = ''platform'' then map_option str_int (meta_qc_platform c) = Some (snd kv)
         else True)) m"

definition described_entry :: "dict \<Rightarrow> sample \<Rightarrow> entry \<Rightarrow> bool" where
  "described_entry m c e \<longleftrightarrow>
     dict_get m ''group'' = Some ''raw'' \<or>
     (dict_get m ''group'' = Some ''adj'' \<and> adj e = Some True \<and> described_sample m c)"

definition described_call_stats ::
  "dict \<Rightarrow> sample list \<Rightarrow> 'l variant \<Rightarrow> (int list, rat list option) call_stats" where
  "described_call_stats m cs v =
     hl_call_stats
       (map (\<lambda>ce. GT (snd ce))
          (filter (\<lambda>ce. described_entry m (fst ce) (snd ce)) (zip cs (row_entries v))))
       (length (row_alleles v))"

text \<open>
  The ages an age histogram is built from: those of the samples whose entry passes the
  \<open>adj\<close> filter and whose call is a carrier of the given kind. A heterozygous call has
  two different alleles, a homozygous-variant call twice the same non-reference allele.
\<close>

definition het_call :: "call \<Rightarrow> bool" where
  "het_call g \<longleftrightarrow> fst g \<noteq> snd g"

definition hom_var_call :: "call \<Rightarrow> bool" where
  "hom_var_call g \<longleftrightarrow> fst g = snd g \<and> 0 < fst g"

definition carrier_ages :: "(call \<Rightarrow> bool) \<Rightarrow> sample list \<Rightarrow> 'l variant \<Rightarrow> rat option list" where
  "carrier_ages carrier cs v =
     map (\<lambda>ce. meta_age (fst ce))
       (filter (\<lambda>ce. adj (snd ce) = Some True \<and>
                     (case GT (snd ce) of None \<Rightarrow> False | Some g \<Rightarrow> carrier g))
          (zip cs (row_entries v)))"

section \<open>An example\<close>

text \<open>Three samples of two populations, two of which share the name of their
  sub-population, and one bi-allelic variant. The example engine sorts by insertion and
  returns the arguments of the numeric routines it does not compute.\<close>

definition example_engine ::
  "(string, int \<times> int \<times> rat, rat option list \<times> rat \<times> rat \<times> nat) engine" where
  "example_engine =
     \<lparr>eng_sorted_freq = hl_stable_sorted,
      eng_sorted_project = hl_stable_sorted,
      eng_filtering_allele_frequency = (\<lambda>ac an c. (ac, an, c)),
      eng_in_autosome_or_par = (\<lambda>l. l \<noteq> ''X''),
      eng_hist = (\<lambda>xs s e b. (xs, s, e, b)),
      eng_rand_unif = (\<lambda>c. if col_s c = ''s1'' then 3 / 10
                            else if col_s c = ''s2'' then 1 / 10 else 2 / 10),
      eng_pop_data = List.map_filter meta_pop\<rparr>"

definition example_sample ::
  "string \<Rightarrow> string \<Rightarrow> string \<Rightarrow> string \<Rightarrow> rat \<Rightarrow> sample" where
  "example_sample i p sx sp a =
     \<lparr>col_s = i, meta_pop = Some p, meta_sex = Some sx, meta_subpop = Some sp,
      meta_qc_platform = Some 1, meta_project_id = Some ''p1'', meta_age = Some a,
      downsampling = None\<rparr>"

definition example_mt :: "string matrix_table" where
  "example_mt =
     \<lparr>cols = [example_sample ''s1'' ''A'' ''male'' ''x'' 41,
              example_sample ''s2'' ''B'' ''female'' ''x'' 67,
              example_sample ''s3'' ''A'' ''female'' ''y'' 55],
      rows = [\<lparr>row_locus = ''1'', row_alleles = [''A'', ''T''],
               row_entries = [\<lparr>GT = Some (0, 1), adj = Some True\<rparr>,
                              \<lparr>GT = Some (1, 1), adj = Some True\<rparr>,
                              \<lparr>GT = Some (0, 1), adj = Some False\<rparr>]\<rparr>]\<rparr>"

section \<open>Facts about the expression language\<close>

lemma hl_and_Some_True: "hl_and a b = Some True \<longleftrightarrow> a = Some True \<and> b = Some True"
  by (induction a b rule: hl_and.induct) auto

lemma hl_or_Some_True: "hl_or a b = Some True \<longleftrightarrow> a = Some True \<or> b = Some True"
  by (induction a b rule: hl_or.induct) auto

lemma hl_not_Some_True: "hl_not a = Some True \<longleftrightarrow> a = Some False"
  by (cases a) (auto simp: hl_not_def)

lemma hl_eq_Some_True: "hl_eq a (Some v) = Some True \<longleftrightarrow> a = Some v"
  by (auto simp: hl_eq_def split: option.splits)

lemma set_contains_Some_True:
  "set_contains S a = Some True \<longleftrightarrow> (\<exists>x. a = Some x \<and> x \<in> S)"
  by (cases a) (auto simp: set_contains_def)

lemma hl_comp_irrefl: "\<not> hl_comp r a a"
  by (cases a) auto

lemma hl_comp_asym: "hl_comp r a b \<Longrightarrow> \<not> hl_comp r b a"
  by (induction r a b rule: hl_comp.induct) (auto split: if_splits)

lemma hl_comp_negtrans: "hl_comp r c a \<Longrightarrow> hl_comp r c b \<or> hl_comp r b a"
  by (cases a; cases b; cases c) (auto split: if_splits)

lemma hl_sorted_ok_set: "hl_sorted_ok srt \<Longrightarrow> set (srt key r xs) = set xs"
  unfolding hl_sorted_ok_def by (metis mset_eq_setD)

lemma hl_sorted_ok_length: "hl_sorted_ok srt \<Longrightarrow> length (srt key r xs) = length xs"
  unfolding hl_sorted_ok_def by (metis size_mset)

lemma hl_sorted_ok_first:
  assumes "hl_sorted_ok srt" and "x \<in> set xs"
  shows "srt key r xs ! 0 \<in> set xs \<and> \<not> hl_comp r (key x) (key (srt key r xs ! 0))"
proof -
  let ?ys = "srt key r xs"
  have s: "set ?ys = set xs" using assms(1) by (rule hl_sorted_ok_set)
  have w: "sorted_wrt (\<lambda>a b. \<not> hl_comp r (key b) (key a)) ?ys"
    using assms(1) unfolding hl_sorted_ok_def by blast
  from s assms(2) obtain y ys where ys: "?ys = y # ys" by (cases ?ys) auto
  have "x = y \<or> x \<in> set ys" using s assms(2) ys by auto
  then have "\<not> hl_comp r (key x) (key y)"
    using w ys by (auto simp: hl_comp_irrefl)
  moreover have "y \<in> set xs" using s ys by auto
  ultimately show ?thesis using ys by simp
qed

text \<open>The insertion sort is one of the sorts \<open>hl_sorted_ok\<close> admits.\<close>

lemma mset_hl_insort: "mset (hl_insort key r x ys) = add_mset x (mset ys)"
  by (induction ys) auto

lemma set_hl_insort: "set (hl_insort key r x ys) = insert x (set ys)"
  by (induction ys) auto

lemma sorted_hl_insort:
  "sorted_wrt (\<lambda>a b. \<not> hl_comp r (key b) (key a)) ys \<Longrightarrow>
   sorted_wrt (\<lambda>a b. \<not> hl_comp r (key b) (key a)) (hl_insort key r x ys)"
proof (induction ys)
  case Nil
  then show ?case by simp
next
  case (Cons y ys)
  show ?case
  proof (cases "hl_comp r (key y) (key x)")
    case True
    then show ?thesis using Cons by (auto simp: set_hl_insort dest: hl_comp_asym)
  next
    case False
    then show ?thesis using Cons.prems by (auto dest: hl_comp_negtrans[where b = "key y"])
  qed
qed

lemma hl_stable_sorted_ok: "hl_sorted_ok hl_stable_sorted"
proof -
  have m: "mset (hl_stable_sorted key r xs) = mset xs" for key :: "'a \<Rightarrow> 'b option" and r xs
    unfolding hl_stable_sorted_def by (induction xs) (simp_all add: mset_hl_insort)
  have s: "sorted_wrt (\<lambda>a b. \<not> hl_comp r (key b) (key a)) (hl_stable_sorted key r xs)"
    for key :: "'a \<Rightarrow> 'b option" and r xs
    unfolding hl_stable_sorted_def by (induction xs) (simp_all add: sorted_hl_insort)
  show ?thesis unfolding hl_sorted_ok_def using m s by blast
qed

section \<open>Facts about arrays and aggregators\<close>

lemma ebind_Inr: "ebind (Inr x) f = f x"
  by (simp add: ebind_def)

lemma ebind_Inl: "ebind (Inl e) f = Inl e"
  by (simp add: ebind_def)

lemma etraverse_Inr: "(\<And>x. x \<in> set xs \<Longrightarrow> f x = Inr (g x)) \<Longrightarrow> etraverse f xs = Inr (map g xs)"
  by (induction xs) (simp_all add: ebind_def)

lemma ebind_eq_Inr: "ebind m f = Inr y \<longleftrightarrow> (\<exists>x. m = Inr x \<and> f x = Inr y)"
  by (cases m) (simp_all add: ebind_def)

lemma etraverse_eq_Inr:
  "etraverse f xs = Inr ys \<longleftrightarrow> length ys = length xs \<and> (\<forall>i<length xs. f (xs ! i) = Inr (ys ! i))"
proof (induction xs arbitrary: ys)
  case Nil
  then show ?case by auto
next
  case (Cons x xs)
  show ?case
  proof (cases ys)
    case Nil
    then show ?thesis by (auto simp: ebind_eq_Inr)
  next
    case (Cons y ys')
    then show ?thesis
      by (auto simp: ebind_eq_Inr Cons.IH less_Suc_eq_0_disj)
  qed
qed

lemma etraverse_eq_Inl:
  "etraverse f xs = Inl e \<Longrightarrow> \<exists>x\<in>set xs. f x = Inl e"
proof (induction xs)
  case Nil
  then show ?case by simp
next
  case (Cons x xs)
  then show ?case
    by (cases "f x"; cases "etraverse f xs") (auto simp: ebind_def)
qed

lemma etraverse_all_Inl:
  "xs \<noteq> [] \<Longrightarrow> (\<And>x. x \<in> set xs \<Longrightarrow> f x = Inl e) \<Longrightarrow> etraverse f xs = Inl e"
  by (cases xs) (simp_all add: ebind_def)

lemma hl_filter_e_Inr:
  assumes "\<And>x. x \<in> set xs \<Longrightarrow> p x = Inr (g x)"
  shows "hl_filter_e p xs = Inr (hl_filter g xs)"
proof -
  have "etraverse (\<lambda>x. ebind (p x) (\<lambda>b. Inr (x, b))) xs = Inr (map (\<lambda>x. (x, g x)) xs)"
    by (rule etraverse_Inr) (simp add: assms ebind_def)
  then show ?thesis
    by (simp add: hl_filter_e_def ebind_def hl_filter_def filter_map comp_def)
qed

lemma hl_sorted_e_Inr:
  assumes "\<And>x. x \<in> set xs \<Longrightarrow> key x = Inr (k x)"
  shows "hl_sorted_e srt key r xs = Inr (map snd (srt fst r (map (\<lambda>x. (k x, x)) xs)))"
proof -
  have "etraverse (\<lambda>x. ebind (key x) (\<lambda>k. Inr (k, x))) xs = Inr (map (\<lambda>x. (k x, x)) xs)"
    by (rule etraverse_Inr) (simp add: assms ebind_def)
  then show ?thesis by (simp add: hl_sorted_e_def ebind_def)
qed

lemma hl_sorted_by_key:
  fixes k :: "'x \<Rightarrow> 'k::linorder option"
  assumes ok: "hl_sorted_ok srt"
  shows "mset (map snd (srt fst r (map (\<lambda>x. (k x, x)) xs))) = mset xs"
    and "sorted_wrt (\<lambda>a b. \<not> hl_comp r (k b) (k a)) (map snd (srt fst r (map (\<lambda>x. (k x, x)) xs)))"
proof -
  let ?kxs = "map (\<lambda>x. (k x, x)) xs"
  let ?zs = "srt fst r ?kxs"
  have m: "mset ?zs = mset ?kxs" using ok unfolding hl_sorted_ok_def by blast
  have "mset (map snd ?zs) = image_mset snd (mset ?zs)" by simp
  also have "\<dots> = mset xs" unfolding m by (simp add: image_mset.compositionality comp_def)
  finally show "mset (map snd ?zs) = mset xs" .
  have s: "set ?zs = set ?kxs" using ok by (rule hl_sorted_ok_set)
  have w: "sorted_wrt (\<lambda>a b. \<not> hl_comp r (fst b) (fst a)) ?zs"
    using ok unfolding hl_sorted_ok_def by blast
  have "sorted_wrt (\<lambda>a b. \<not> hl_comp r (k (snd b)) (k (snd a))) ?zs"
    using w by (rule sorted_wrt_mono_rel[rotated]) (use s in auto)
  then show "sorted_wrt (\<lambda>a b. \<not> hl_comp r (k b) (k a)) (map snd ?zs)"
    by (simp add: sorted_wrt_map)
qed

lemma hl_call_stats_lengths:
  "length (AC (hl_call_stats gts n)) = n"
  "length (homozygote_count (hl_call_stats gts n)) = n"
  "AF (hl_call_stats gts n) = Some a \<Longrightarrow> length a = n"
  by (auto simp: hl_call_stats_def Let_def split: if_splits)

section \<open>popmax\<close>

lemma af_le_hl_comp: "af_le a b \<longleftrightarrow> \<not> hl_comp True a b"
  by (induction a b rule: af_le.induct) auto

lemma popmax_filter_eligible:
  "hl_filter
     (\<lambda>f. hl_and (hl_and (hl_and (Some (dict_size (meta f) = 2))
                                (hl_eq (dict_get (meta f) ''group'') (Some ''adj'')))
                        (set_contains P (dict_get (meta f) ''pop'')))
                (Some (AC f > 0))) xs
   = filter (\<lambda>f. popmax_eligible P (call_stats.truncate f) (meta f)) xs"
  unfolding hl_filter_def
  by (rule filter_cong)
     (auto simp: hl_and_Some_True hl_eq_Some_True set_contains_Some_True popmax_eligible_def
        call_stats.truncate_def)


lemma popmax_candidates_set:
  "set (filter (\<lambda>f. popmax_eligible P (call_stats.truncate f) (meta f))
          (map (\<lambda>x. call_stats.extend (fst x) (freq_meta_struct.fields (snd x))) (zip freq freq_meta)))
   = {call_stats.extend (freq ! i) (freq_meta_struct.fields (freq_meta ! i)) | i.
        i < length freq \<and> i < length freq_meta \<and> popmax_eligible P (freq ! i) (freq_meta ! i)}"
  (is "?L = ?R")
proof -
  have tr: "call_stats.truncate (call_stats.extend f (freq_meta_struct.fields m)) = f" for f :: freq_struct and m
    by (simp add: call_stats.truncate_def call_stats.extend_def freq_meta_struct.fields_def)
  have me: "meta (call_stats.extend f (freq_meta_struct.fields m)) = m" for f :: freq_struct and m
    by (simp add: call_stats.extend_def freq_meta_struct.fields_def)
  show ?thesis
    by (auto simp: set_zip tr me image_iff) 
qed

text \<open>
  Claim C1. \<open>popmax_expr\<close> pairs \<open>freq\<close> with \<open>freq_meta\<close> by index and looks only at
  the eligible entries: meta of size 2, group \<open>adj\<close>, population in the allowed set,
  allele count above zero. When there is one, the result is the struct of an eligible
  entry whose allele frequency no eligible entry exceeds (which of several equal ones is
  left to the sort), with that entry's AC, AF, AN, homozygote count and population; when
  there is none the result is missing.
\<close>

theorem popmax_expr_selects_highest_AF:
  assumes "hl_sorted_ok hl_sorted"
  shows "if (\<exists>i. i < length freq \<and> i < length freq_meta \<and>
                popmax_eligible populations (freq ! i) (freq_meta ! i))
         then (\<exists>i p. i < length freq \<and> i < length freq_meta \<and>
                 popmax_eligible populations (freq ! i) (freq_meta ! i) \<and>
                 dict_get (freq_meta ! i) ''pop'' = Some p \<and>
                 (\<forall>j. j < length freq \<and> j < length freq_meta \<and>
                      popmax_eligible populations (freq ! j) (freq_meta ! j) \<longrightarrow>
                      af_le (AF (freq ! j)) (AF (freq ! i))) \<and>
                 popmax_expr hl_sorted freq freq_meta populations =
                   Inr (Some \<lparr>AC = AC (freq ! i), AF = AF (freq ! i), AN = AN (freq ! i),
                              homozygote_count = homozygote_count (freq ! i), pop = p\<rparr>))
         else popmax_expr hl_sorted freq freq_meta populations = Inr None"
proof -
  define ann where "ann = (\<lambda>x :: freq_struct \<times> dict. call_stats.extend (fst x) (freq_meta_struct.fields (snd x)))"
  define cand where "cand = filter (\<lambda>f. popmax_eligible populations (call_stats.truncate f) (meta f))
          (map ann (zip freq freq_meta))"
  define srt where "srt = hl_sorted AF True cand"
  have cs: "set cand = {ann (freq ! i, freq_meta ! i) | i.
        i < length freq \<and> i < length freq_meta \<and> popmax_eligible populations (freq ! i) (freq_meta ! i)}"
    unfolding cand_def ann_def using popmax_candidates_set[of populations freq freq_meta] by simp
  have pe: "popmax_expr hl_sorted freq freq_meta populations =
     (if length srt > 0
         then ebind (dict_index (meta (srt ! 0)) ''pop'')
                (\<lambda>p. Inr (Some \<lparr>AC = AC (srt ! 0), AF = AF (srt ! 0),
                                  AN = AN (srt ! 0),
                                  homozygote_count = homozygote_count (srt ! 0),
                                  pop = p\<rparr>))
         else Inr None)"
    unfolding popmax_expr_def Let_def popmax_filter_eligible srt_def cand_def ann_def ..
  have len: "length srt = length cand"
    unfolding srt_def using assms by (rule hl_sorted_ok_length)
  show ?thesis
  proof (cases "\<exists>i. i < length freq \<and> i < length freq_meta \<and>
                popmax_eligible populations (freq ! i) (freq_meta ! i)")
    case False
    then have "set cand = {}" using cs by auto
    then have "length srt = 0" using len by simp
    then show ?thesis using False pe by simp
  next
    case True
    then obtain k where k: "ann (freq ! k, freq_meta ! k) \<in> set cand" using cs by auto
    have h: "srt ! 0 \<in> set cand" and m: "\<And>x. x \<in> set cand \<Longrightarrow> \<not> hl_comp True (AF x) (AF (srt ! 0))"
      unfolding srt_def using hl_sorted_ok_first[OF assms, of _ cand AF True] k by blast+
    from h cs obtain i where i: "i < length freq" "i < length freq_meta"
        "popmax_eligible populations (freq ! i) (freq_meta ! i)" "srt ! 0 = ann (freq ! i, freq_meta ! i)"
      by auto
    from i(3) obtain p where p: "dict_get (freq_meta ! i) ''pop'' = Some p"
      unfolding popmax_eligible_def by blast
    have flds: "AC (srt ! 0) = AC (freq ! i)" "AF (srt ! 0) = AF (freq ! i)" "AN (srt ! 0) = AN (freq ! i)"
       "homozygote_count (srt ! 0) = homozygote_count (freq ! i)" "meta (srt ! 0) = freq_meta ! i"
      unfolding i(4) ann_def by (simp_all add: call_stats.extend_def freq_meta_struct.fields_def)
    have mx: "af_le (AF (freq ! j)) (AF (freq ! i))"
      if "j < length freq \<and> j < length freq_meta \<and> popmax_eligible populations (freq ! j) (freq_meta ! j)" for j
    proof -
      have "ann (freq ! j, freq_meta ! j) \<in> set cand" using that cs by auto
      from m[OF this] have "\<not> hl_comp True (AF (freq ! j)) (AF (freq ! i))"
        unfolding flds(2)[symmetric] by (simp add: ann_def call_stats.extend_def freq_meta_struct.fields_def)
      then show ?thesis by (simp add: af_le_hl_comp)
    qed
    have "length srt > 0" using len k by (cases cand) auto
    then have res: "popmax_expr hl_sorted freq freq_meta populations =
                   Inr (Some \<lparr>AC = AC (freq ! i), AF = AF (freq ! i), AN = AN (freq ! i),
                              homozygote_count = homozygote_count (freq ! i), pop = p\<rparr>)"
      using pe flds p by (simp add: dict_index_def dict_get_def ebind_def)
    show ?thesis using True i(1,2,3) p mx res by (simp only: if_True) blast
  qed
qed


theorem popmax_expr_selects_highest_AF_witness:
  "hl_sorted_ok (hl_stable_sorted :: ((int, rat option) freq_meta_struct \<Rightarrow> rat option) \<Rightarrow> _) \<and>
   popmax_expr hl_stable_sorted
     [\<lparr>AC = 1, AF = Some (1/10), AN = 10, homozygote_count = 0\<rparr>,
      \<lparr>AC = 3, AF = Some (3/10), AN = 10, homozygote_count = 1\<rparr>,
      \<lparr>AC = 2, AF = Some (1/2), AN = 4, homozygote_count = 0\<rparr>,
      \<lparr>AC = 4, AF = Some (4/5), AN = 5, homozygote_count = 1\<rparr>]
     [[(''group'', ''adj'')], [(''pop'', ''nfe''), (''group'', ''adj'')],
      [(''pop'', ''afr''), (''group'', ''adj'')], [(''pop'', ''fin''), (''group'', ''adj'')]]
     {''nfe'', ''afr''}
   = Inr (Some \<lparr>AC = 2, AF = Some (1/2), AN = 4, homozygote_count = 0, pop = ''afr''\<rparr>)"
proof -
  have ok: "hl_sorted_ok (hl_stable_sorted :: ((int, rat option) freq_meta_struct \<Rightarrow> rat option) \<Rightarrow> _)"
    by (rule hl_stable_sorted_ok)
  note t = popmax_expr_selects_highest_AF[OF ok,
     of "[\<lparr>AC = 1, AF = Some (1/10), AN = 10, homozygote_count = 0\<rparr>,
      \<lparr>AC = 3, AF = Some (3/10), AN = 10, homozygote_count = 1\<rparr>,
      \<lparr>AC = 2, AF = Some (1/2), AN = 4, homozygote_count = 0\<rparr>,
      \<lparr>AC = 4, AF = Some (4/5), AN = 5, homozygote_count = 1\<rparr>]"
     "[[(''group'', ''adj'')], [(''pop'', ''nfe''), (''group'', ''adj'')],
      [(''pop'', ''afr''), (''group'', ''adj'')], [(''pop'', ''fin''), (''group'', ''adj'')]]"
     "{''nfe'', ''afr''}"]
  have e: "popmax_eligible {''nfe'', ''afr''}
             ([\<lparr>AC = 1, AF = Some (1/10), AN = 10, homozygote_count = 0\<rparr>,
      \<lparr>AC = 3, AF = Some (3/10), AN = 10, homozygote_count = 1\<rparr>,
      \<lparr>AC = 2, AF = Some (1/2), AN = 4, homozygote_count = 0\<rparr>,
      \<lparr>AC = 4, AF = Some (4/5), AN = 5, homozygote_count = 1\<rparr>] ! 1)
             ([[(''group'', ''adj'')], [(''pop'', ''nfe''), (''group'', ''adj'')],
      [(''pop'', ''afr''), (''group'', ''adj'')], [(''pop'', ''fin''), (''group'', ''adj'')]] ! 1)"
    by (simp add: popmax_eligible_def dict_size_def dict_get_def)
  have r: "popmax_expr hl_stable_sorted
     [\<lparr>AC = 1, AF = Some (1/10), AN = 10, homozygote_count = 0\<rparr>,
      \<lparr>AC = 3, AF = Some (3/10), AN = 10, homozygote_count = 1\<rparr>,
      \<lparr>AC = 2, AF = Some (1/2), AN = 4, homozygote_count = 0\<rparr>,
      \<lparr>AC = 4, AF = Some (4/5), AN = 5, homozygote_count = 1\<rparr>]
     [[(''group'', ''adj'')], [(''pop'', ''nfe''), (''group'', ''adj'')],
      [(''pop'', ''afr''), (''group'', ''adj'')], [(''pop'', ''fin''), (''group'', ''adj'')]]
     {''nfe'', ''afr''}
   = Inr (Some \<lparr>AC = 2, AF = Some (1/2), AN = 4, homozygote_count = 0, pop = ''afr''\<rparr>)"
    by (simp add: popmax_expr_def Let_def hl_filter_def hl_stable_sorted_def dict_size_def
          dict_get_def dict_index_def hl_eq_def set_contains_def ebind_def
          call_stats.extend_def freq_meta_struct.fields_def)
  show ?thesis using ok r t by simp
qed

section \<open>Filtering allele frequency\<close>

lemma faf_filter_eligible:
  "hl_or
               (hl_or
                  (hl_and (Some (dict_size m = 1))
                          (hl_eq (dict_get m ''group'') (Some ''adj'')))
                  (hl_and (hl_and (Some (dict_size m = 2))
                                  (hl_eq (dict_get m ''group'') (Some ''adj'')))
                          (set_contains P (dict_get m ''pop''))))
               (hl_and (hl_not (map_option iap locus))
                  (hl_or
                     (hl_and (hl_and (Some (dict_size m = 2))
                                     (hl_eq (dict_get m ''group'') (Some ''adj'')))
                             (Some (dict_contains m ''sex'')))
                     (hl_and (hl_and (hl_and (Some (dict_size m = 3))
                                             (hl_eq (dict_get m ''group'') (Some ''adj'')))
                                     (set_contains P (dict_get m ''pop'')))
                             (Some (dict_contains m ''sex''))))) = Some True
   \<longleftrightarrow> faf_eligible P (not_autosome_or_par iap locus) m"
  unfolding hl_or_Some_True hl_and_Some_True hl_eq_Some_True set_contains_Some_True hl_not_Some_True
    faf_eligible_def pop_allowed_def not_autosome_or_par_def
  by (cases locus) auto

text \<open>
  Claim C3. \<open>faf_expr\<close> returns, in the order of the input arrays, one struct for each
  index-aligned pair of \<open>freq\<close> and \<open>freq_meta\<close> whose meta is eligible: group \<open>adj\<close> and
  either the global meta (size 1), a population of the allowed set (size 2) or, only on a
  locus outside the autosomes and pseudoautosomal regions, a meta with a \<open>sex\<close> key (size
  2, or size 3 with an allowed population). Each struct holds the meta and the filtering
  allele frequency of the entry's AC and AN at confidence 0.95 and 0.99.
\<close>

theorem faf_expr_eligible_groups:
  "faf_expr filtering_allele_frequency in_autosome_or_par freq freq_meta locus populations =
     map (\<lambda>(f, m). \<lparr>faf_meta = m,
                      faf95 = filtering_allele_frequency (AC f) (AN f) (95 / 100),
                      faf99 = filtering_allele_frequency (AC f) (AN f) (99 / 100)\<rparr>)
       (filter (\<lambda>(f, m). faf_eligible populations
                            (not_autosome_or_par in_autosome_or_par locus) m)
          (zip freq freq_meta))"
  unfolding faf_expr_def Let_def hl_filter_def faf_filter_eligible
  by (simp add: filter_map comp_def split_def call_stats.extend_def freq_meta_struct.fields_def)

theorem faf_expr_eligible_groups_witness:
  "faf_expr (\<lambda>ac an c. (ac, an, c)) (\<lambda>l. l \<noteq> ''X'')
     [\<lparr>AC = 1, AF = Some (1/10), AN = 10, homozygote_count = 0\<rparr>,
      \<lparr>AC = 2, AF = Some (2/10), AN = 10, homozygote_count = 0\<rparr>,
      \<lparr>AC = 3, AF = Some (3/8), AN = 8, homozygote_count = 1\<rparr>,
      \<lparr>AC = 1, AF = Some (1/6), AN = 6, homozygote_count = 0\<rparr>]
     [[(''group'', ''adj'')], [(''group'', ''raw'')],
      [(''pop'', ''nfe''), (''group'', ''adj'')], [(''sex'', ''male''), (''group'', ''adj'')]]
     (Some ''X'') {''nfe''}
   = [\<lparr>faf_meta = [(''group'', ''adj'')], faf95 = (1, 10, 95 / 100), faf99 = (1, 10, 99 / 100)\<rparr>,
      \<lparr>faf_meta = [(''pop'', ''nfe''), (''group'', ''adj'')],
         faf95 = (3, 8, 95 / 100), faf99 = (3, 8, 99 / 100)\<rparr>,
      \<lparr>faf_meta = [(''sex'', ''male''), (''group'', ''adj'')],
         faf95 = (1, 6, 95 / 100), faf99 = (1, 6, 99 / 100)\<rparr>]"
  unfolding faf_expr_eligible_groups
  by (simp add: faf_eligible_def not_autosome_or_par_def pop_allowed_def dict_size_def
        dict_get_def dict_contains_def)

section \<open>Project max\<close>

lemma agg_group_by_per_project:
  "agg_group_by fst (\<lambda>es. hl_call_stats (map snd es) n) entries = per_project_call_stats entries n"
  by (simp add: agg_group_by_def per_project_call_stats_def)

lemma per_project_lengths:
  assumes "x \<in> set (per_project_call_stats entries n)"
  shows "length (AC (snd x)) = n" "length (homozygote_count (snd x)) = n"
    "AF (snd x) = Some a \<Longrightarrow> length a = n"
  using assms by (auto simp: per_project_call_stats_def hl_call_stats_lengths)

lemma hl_index_opt_af_of:
  assumes "x \<in> set (per_project_call_stats entries n)" "ai < n"
  shows "hl_index_opt (AF (snd x)) ai = Inr (af_of (snd x) ai)"
  using per_project_lengths(3)[OF assms(1)] assms(2)
  by (auto simp: hl_index_opt_def af_of_def hl_index_def ebind_def split: option.splits)


lemma hl_filter_af_positive:
  "hl_filter (\<lambda>x. map_option (\<lambda>a. a > 0) (af_of (snd x) ai)) xs =
   filter (\<lambda>x. af_positive (snd x) ai) xs"
  unfolding hl_filter_def af_positive_def
  by (rule filter_cong) (auto split: option.splits)

lemma pair_with_reference_Inr:
  assumes x: "x \<in> set (per_project_call_stats entries n)" and ai: "ai < n"
  shows "ebind (hl_index (AC (snd x)) 0) (\<lambda>ac0.
         ebind (hl_index (AC (snd x)) ai) (\<lambda>ac1.
         ebind (hl_index_opt (AF (snd x)) 0) (\<lambda>af0.
         ebind (hl_index_opt (AF (snd x)) ai) (\<lambda>af1.
         ebind (hl_index (homozygote_count (snd x)) 0) (\<lambda>hom0.
         ebind (hl_index (homozygote_count (snd x)) ai) (\<lambda>hom1.
           Inr \<lparr>AC = [ac0, ac1], AF = [af0, af1], AN = AN (snd x),
                homozygote_count = [hom0, hom1], project = fst x\<rparr>))))))
         = Inr (pair_with_reference ai x)"
proof -
  have n0: "0 < n" using ai by simp
  show ?thesis
    using per_project_lengths(1,2)[OF x] ai n0
    by (simp add: hl_index_opt_af_of[OF x ai] hl_index_opt_af_of[OF x n0]
          hl_index_def ebind_def pair_with_reference_def)
qed

lemma project_max_per_allele:
  fixes hl_sorted :: "(rat option \<times> string option \<times> (int list, rat list option) call_stats \<Rightarrow> rat option) \<Rightarrow>
      bool \<Rightarrow> (rat option \<times> string option \<times> (int list, rat list option) call_stats) list \<Rightarrow>
      (rat option \<times> string option \<times> (int list, rat list option) call_stats) list"
    and entries :: "(string option \<times> call option) list" and n ai n_projects :: nat
  assumes ok: "hl_sorted_ok hl_sorted" and ai: "ai < n"
  defines "pcs \<equiv> per_project_call_stats entries n"
  defines "ys \<equiv> map snd (hl_sorted fst False
                    (map (\<lambda>x. (map_option uminus (af_of (snd x) ai), x))
                       (filter (\<lambda>x. af_positive (snd x) ai) pcs)))"
  shows "ebind (hl_filter_e
                  (\<lambda>x. ebind (hl_index_opt (AF (snd x)) ai)
                          (\<lambda>af. Inr (map_option (\<lambda>a. a > 0) af)))
                  pcs)
           (\<lambda>filtered.
         ebind (hl_sorted_e hl_sorted
                  (\<lambda>x. ebind (hl_index_opt (AF (snd x)) ai)
                          (\<lambda>af. Inr (map_option uminus af)))
                  False filtered)
           (\<lambda>sorted_cs.
         etraverse
           (\<lambda>x.
              ebind (hl_index (AC (snd x)) 0) (\<lambda>ac0.
              ebind (hl_index (AC (snd x)) ai) (\<lambda>ac1.
              ebind (hl_index_opt (AF (snd x)) 0) (\<lambda>af0.
              ebind (hl_index_opt (AF (snd x)) ai) (\<lambda>af1.
              ebind (hl_index (homozygote_count (snd x)) 0) (\<lambda>hom0.
              ebind (hl_index (homozygote_count (snd x)) ai) (\<lambda>hom1.
                Inr \<lparr>AC = [ac0, ac1], AF = [af0, af1], AN = AN (snd x),
                     homozygote_count = [hom0, hom1], project = fst x\<rparr>)))))))
           (take n_projects sorted_cs)))
         = Inr (map (pair_with_reference ai) (take n_projects ys))"
    and "mset ys = mset (filter (\<lambda>x. af_positive (snd x) ai) pcs)"
    and "sorted_wrt (\<lambda>a b. af_le (af_of (snd b) ai) (af_of (snd a) ai)) ys"
proof -
  let ?flt = "filter (\<lambda>x. af_positive (snd x) ai) pcs"
  have f: "hl_filter_e
                  (\<lambda>x. ebind (hl_index_opt (AF (snd x)) ai)
                          (\<lambda>af. Inr (map_option (\<lambda>a. a > 0) af)))
                  pcs = Inr ?flt"
    unfolding hl_filter_af_positive[symmetric]
    by (rule hl_filter_e_Inr) (simp add: pcs_def hl_index_opt_af_of[OF _ ai] ebind_def)
  have sub: "set ?flt \<subseteq> set pcs" by auto
  have s: "hl_sorted_e hl_sorted
                  (\<lambda>x. ebind (hl_index_opt (AF (snd x)) ai)
                          (\<lambda>af. Inr (map_option uminus af)))
                  False ?flt = Inr ys"
    unfolding ys_def
  proof (rule hl_sorted_e_Inr)
    fix x assume "x \<in> set ?flt"
    then have "x \<in> set (per_project_call_stats entries n)" using sub by (auto simp: pcs_def)
    then show "ebind (hl_index_opt (AF (snd x)) ai) (\<lambda>af. Inr (map_option uminus af)) =
               Inr (map_option uminus (af_of (snd x) ai))"
      by (simp add: hl_index_opt_af_of[OF _ ai] ebind_def)
  qed
  show m: "mset ys = mset ?flt"
    unfolding ys_def using ok by (rule hl_sorted_by_key(1))
  then have sy: "set ys = set ?flt" by (rule mset_eq_setD)
  have "set (take n_projects ys) \<subseteq> set pcs"
    using sy sub set_take_subset[of n_projects ys] by blast
  then have e: "etraverse
           (\<lambda>x.
              ebind (hl_index (AC (snd x)) 0) (\<lambda>ac0.
              ebind (hl_index (AC (snd x)) ai) (\<lambda>ac1.
              ebind (hl_index_opt (AF (snd x)) 0) (\<lambda>af0.
              ebind (hl_index_opt (AF (snd x)) ai) (\<lambda>af1.
              ebind (hl_index (homozygote_count (snd x)) 0) (\<lambda>hom0.
              ebind (hl_index (homozygote_count (snd x)) ai) (\<lambda>hom1.
                Inr \<lparr>AC = [ac0, ac1], AF = [af0, af1], AN = AN (snd x),
                     homozygote_count = [hom0, hom1], project = fst x\<rparr>)))))))
           (take n_projects ys) = Inr (map (pair_with_reference ai) (take n_projects ys))"
    by (intro etraverse_Inr pair_with_reference_Inr[OF _ ai, of _ entries]) (auto simp: pcs_def)
  show "ebind (hl_filter_e
                  (\<lambda>x. ebind (hl_index_opt (AF (snd x)) ai)
                          (\<lambda>af. Inr (map_option (\<lambda>a. a > 0) af)))
                  pcs)
           (\<lambda>filtered.
         ebind (hl_sorted_e hl_sorted
                  (\<lambda>x. ebind (hl_index_opt (AF (snd x)) ai)
                          (\<lambda>af. Inr (map_option uminus af)))
                  False filtered)
           (\<lambda>sorted_cs.
         etraverse
           (\<lambda>x.
              ebind (hl_index (AC (snd x)) 0) (\<lambda>ac0.
              ebind (hl_index (AC (snd x)) ai) (\<lambda>ac1.
              ebind (hl_index_opt (AF (snd x)) 0) (\<lambda>af0.
              ebind (hl_index_opt (AF (snd x)) ai) (\<lambda>af1.
              ebind (hl_index (homozygote_count (snd x)) 0) (\<lambda>hom0.
              ebind (hl_index (homozygote_count (snd x)) ai) (\<lambda>hom1.
                Inr \<lparr>AC = [ac0, ac1], AF = [af0, af1], AN = AN (snd x),
                     homozygote_count = [hom0, hom1], project = fst x\<rparr>)))))))
           (take n_projects sorted_cs)))
         = Inr (map (pair_with_reference ai) (take n_projects ys))"
    by (simp only: f s e ebind_Inr)
  have w: "sorted_wrt (\<lambda>a b. \<not> hl_comp False (map_option uminus (af_of (snd b) ai))
                                 (map_option uminus (af_of (snd a) ai))) ys"
    unfolding ys_def using ok by (rule hl_sorted_by_key(2))
  show "sorted_wrt (\<lambda>a b. af_le (af_of (snd b) ai) (af_of (snd a) ai)) ys"
    using w
  proof (rule sorted_wrt_mono_rel[rotated])
    fix a b assume "a \<in> set ys" "b \<in> set ys"
      and h: "\<not> hl_comp False (map_option uminus (af_of (snd b) ai)) (map_option uminus (af_of (snd a) ai))"
    then have "af_positive (snd a) ai" "af_positive (snd b) ai" using sy by auto
    then obtain x y where "af_of (snd a) ai = Some x" "af_of (snd b) ai = Some y"
      unfolding af_positive_def by blast
    then show "af_le (af_of (snd b) ai) (af_of (snd a) ai)" using h by simp
  qed
qed


lemma project_max_expr_short:
  "\<not> 1 < length alleles \<Longrightarrow> project_max_expr hl_sorted entries alleles n_projects = Inr None"
  by (simp add: project_max_expr_def Let_def)

lemma project_max_expr_value:
  fixes hl_sorted :: "(rat option \<times> string option \<times> (int list, rat list option) call_stats \<Rightarrow> rat option) \<Rightarrow>
      bool \<Rightarrow> (rat option \<times> string option \<times> (int list, rat list option) call_stats) list \<Rightarrow>
      (rat option \<times> string option \<times> (int list, rat list option) call_stats) list"
  assumes ok: "hl_sorted_ok hl_sorted" and long: "1 < length alleles"
  shows "project_max_expr hl_sorted entries alleles n_projects =
     Inr (Some (map (\<lambda>ai. map (pair_with_reference ai)
                        (take n_projects (sorted_projects hl_sorted entries (length alleles) ai)))
                  [1..<length alleles]))"
proof -
  define n where "n = length alleles"
  define ys where "ys = sorted_projects hl_sorted entries n"
  define res where "res = map (\<lambda>ai. map (pair_with_reference ai) (take n_projects (ys ai))) [1..<n]"
  have tr: "etraverse
              (\<lambda>ai.
                 ebind (hl_filter_e
                          (\<lambda>x. ebind (hl_index_opt (AF (snd x)) ai)
                                  (\<lambda>af. Inr (map_option (\<lambda>a. a > 0) af)))
                          (per_project_call_stats entries n))
                   (\<lambda>filtered.
                 ebind (hl_sorted_e hl_sorted
                          (\<lambda>x. ebind (hl_index_opt (AF (snd x)) ai)
                                  (\<lambda>af. Inr (map_option uminus af)))
                          False filtered)
                   (\<lambda>sorted_cs.
                 etraverse
                   (\<lambda>x.
                      ebind (hl_index (AC (snd x)) 0) (\<lambda>ac0.
                      ebind (hl_index (AC (snd x)) ai) (\<lambda>ac1.
                      ebind (hl_index_opt (AF (snd x)) 0) (\<lambda>af0.
                      ebind (hl_index_opt (AF (snd x)) ai) (\<lambda>af1.
                      ebind (hl_index (homozygote_count (snd x)) 0) (\<lambda>hom0.
                      ebind (hl_index (homozygote_count (snd x)) ai) (\<lambda>hom1.
                        Inr \<lparr>AC = [ac0, ac1], AF = [af0, af1], AN = AN (snd x),
                             homozygote_count = [hom0, hom1], project = fst x\<rparr>)))))))
                   (take n_projects sorted_cs))))
              [1..<n] = Inr res"
    unfolding res_def
  proof (rule etraverse_Inr)
    fix ai assume "ai \<in> set [1..<n]"
    then have ai: "ai < n" by simp
    show "ebind (hl_filter_e
                          (\<lambda>x. ebind (hl_index_opt (AF (snd x)) ai)
                                  (\<lambda>af. Inr (map_option (\<lambda>a. a > 0) af)))
                          (per_project_call_stats entries n))
                   (\<lambda>filtered.
                 ebind (hl_sorted_e hl_sorted
                          (\<lambda>x. ebind (hl_index_opt (AF (snd x)) ai)
                                  (\<lambda>af. Inr (map_option uminus af)))
                          False filtered)
                   (\<lambda>sorted_cs.
                 etraverse
                   (\<lambda>x.
                      ebind (hl_index (AC (snd x)) 0) (\<lambda>ac0.
                      ebind (hl_index (AC (snd x)) ai) (\<lambda>ac1.
                      ebind (hl_index_opt (AF (snd x)) 0) (\<lambda>af0.
                      ebind (hl_index_opt (AF (snd x)) ai) (\<lambda>af1.
                      ebind (hl_index (homozygote_count (snd x)) 0) (\<lambda>hom0.
                      ebind (hl_index (homozygote_count (snd x)) ai) (\<lambda>hom1.
                        Inr \<lparr>AC = [ac0, ac1], AF = [af0, af1], AN = AN (snd x),
                             homozygote_count = [hom0, hom1], project = fst x\<rparr>)))))))
                   (take n_projects sorted_cs)))
          = Inr (map (pair_with_reference ai) (take n_projects (ys ai)))"
      unfolding ys_def sorted_projects_def by (rule project_max_per_allele(1)[OF ok ai])
  qed
  show ?thesis
    using long
    by (simp only: project_max_expr_def Let_def agg_group_by_per_project n_def[symmetric] tr
          ebind_Inr if_True res_def ys_def)
qed

lemma sorted_projects_props:
  fixes hl_sorted :: "(rat option \<times> string option \<times> (int list, rat list option) call_stats \<Rightarrow> rat option) \<Rightarrow>
      bool \<Rightarrow> (rat option \<times> string option \<times> (int list, rat list option) call_stats) list \<Rightarrow>
      (rat option \<times> string option \<times> (int list, rat list option) call_stats) list"
  assumes ok: "hl_sorted_ok hl_sorted" and ai: "ai < n"
  shows "mset (sorted_projects hl_sorted entries n ai) =
           mset (filter (\<lambda>x. af_positive (snd x) ai) (per_project_call_stats entries n))"
    and "sorted_wrt (\<lambda>a b. af_le (af_of (snd b) ai) (af_of (snd a) ai))
           (sorted_projects hl_sorted entries n ai)"
  unfolding sorted_projects_def
  by (rule project_max_per_allele(2)[OF ok ai], rule project_max_per_allele(3)[OF ok ai])

text \<open>
  Claim C4. When the site has at least two alleles, \<open>project_max_expr\<close> returns one
  array per non-reference allele index \<open>ai\<close> (at position \<open>ai - 1\<close>): the per-project call
  statistics of the projects whose frequency of allele \<open>ai\<close> is above zero, ordered by that
  frequency from high to low, cut to the first \<open>n_projects\<close>, each with AC, AF and
  homozygote count replaced by the pair of the reference allele's value and allele \<open>ai\<close>'s
  and with the project attached. With fewer than two alleles the result is missing. No
  index is out of range.
\<close>

theorem project_max_expr_top_projects:
  fixes hl_sorted :: "(rat option \<times> string option \<times> (int list, rat list option) call_stats \<Rightarrow> rat option) \<Rightarrow>
      bool \<Rightarrow> (rat option \<times> string option \<times> (int list, rat list option) call_stats) list \<Rightarrow>
      (rat option \<times> string option \<times> (int list, rat list option) call_stats) list"
  assumes ok: "hl_sorted_ok hl_sorted"
  shows "if length alleles > 1
         then (\<exists>res. project_max_expr hl_sorted entries alleles n_projects = Inr (Some res) \<and>
                 length res = length alleles - 1 \<and>
                 (\<forall>ai. 1 \<le> ai \<and> ai < length alleles \<longrightarrow>
                    (\<exists>ys. mset ys = mset (filter (\<lambda>x. af_positive (snd x) ai)
                                             (per_project_call_stats entries (length alleles))) \<and>
                          sorted_wrt (\<lambda>a b. af_le (af_of (snd b) ai) (af_of (snd a) ai)) ys \<and>
                          res ! (ai - 1) = map (pair_with_reference ai) (take n_projects ys))))
         else project_max_expr hl_sorted entries alleles n_projects = Inr None"
proof (cases "length alleles > 1")
  case False
  then show ?thesis by (simp add: project_max_expr_short)
next
  case True
  define n where "n = length alleles"
  define ys where "ys = sorted_projects hl_sorted entries n"
  define res where "res = map (\<lambda>ai. map (pair_with_reference ai) (take n_projects (ys ai))) [1..<n]"
  have r: "project_max_expr hl_sorted entries alleles n_projects = Inr (Some res)"
    unfolding res_def ys_def n_def by (rule project_max_expr_value[OF ok True])
  have len: "length res = length alleles - 1" by (simp add: res_def n_def)
  have per: "\<exists>zs. mset zs = mset (filter (\<lambda>x. af_positive (snd x) ai)
                                             (per_project_call_stats entries (length alleles))) \<and>
                          sorted_wrt (\<lambda>a b. af_le (af_of (snd b) ai) (af_of (snd a) ai)) zs \<and>
                          res ! (ai - 1) = map (pair_with_reference ai) (take n_projects zs)"
    if "1 \<le> ai \<and> ai < length alleles" for ai
  proof -
    have ai: "ai < n" "1 \<le> ai" using that by (simp_all add: n_def)
    have idx: "ai - 1 < length [1..<n]" "[1..<n] ! (ai - 1) = ai"
      using ai by (simp_all add: nth_upt)
    have "res ! (ai - 1) = map (pair_with_reference ai) (take n_projects (ys ai))"
      unfolding res_def using idx by (simp only: nth_map)
    moreover have "mset (ys ai) = mset (filter (\<lambda>x. af_positive (snd x) ai)
                                             (per_project_call_stats entries (length alleles)))"
      unfolding ys_def n_def[symmetric] by (rule sorted_projects_props(1)[OF ok ai(1)])
    moreover have "sorted_wrt (\<lambda>a b. af_le (af_of (snd b) ai) (af_of (snd a) ai)) (ys ai)"
      unfolding ys_def by (rule sorted_projects_props(2)[OF ok ai(1)])
    ultimately show ?thesis by blast
  qed
  show ?thesis using True r len per by (simp only: if_True) blast
qed

theorem project_max_expr_top_projects_witness:
  "hl_sorted_ok (hl_stable_sorted ::
      (rat option \<times> string option \<times> (int list, rat list option) call_stats \<Rightarrow> rat option) \<Rightarrow> _) \<and>
   project_max_expr hl_stable_sorted
     [(Some ''p1'', Some (0, 1)), (Some ''p2'', Some (1, 1)), (Some ''p1'', Some (0, 0)),
      (Some ''p3'', Some (0, 0)), (None, None), (Some ''p2'', Some (0, 1))]
     [''A'', ''T''] 5
   = Inr (Some
       [[\<lparr>AC = [1, 3], AF = [Some (1 / 4), Some (3 / 4)], AN = 4,
            homozygote_count = [0, 1], project = Some ''p2''\<rparr>,
         \<lparr>AC = [3, 1], AF = [Some (3 / 4), Some (1 / 4)], AN = 4,
            homozygote_count = [1, 0], project = Some ''p1''\<rparr>]])"
proof -
  have ok: "hl_sorted_ok (hl_stable_sorted ::
      (rat option \<times> string option \<times> (int list, rat list option) call_stats \<Rightarrow> rat option) \<Rightarrow> _)"
    by (rule hl_stable_sorted_ok)
  note t = project_max_expr_top_projects[OF ok,
     of "[''A'', ''T'']"
        "[(Some ''p1'', Some (0, 1)), (Some ''p2'', Some (1, 1)), (Some ''p1'', Some (0, 0)),
          (Some ''p3'', Some (0, 0)), (None, None), (Some ''p2'', Some (0, 1))]" 5]
  have r: "project_max_expr hl_stable_sorted
     [(Some ''p1'', Some (0, 1)), (Some ''p2'', Some (1, 1)), (Some ''p1'', Some (0, 0)),
      (Some ''p3'', Some (0, 0)), (None, None), (Some ''p2'', Some (0, 1))]
     [''A'', ''T''] 5
   = Inr (Some
       [[\<lparr>AC = [1, 3], AF = [Some (1 / 4), Some (3 / 4)], AN = 4,
            homozygote_count = [0, 1], project = Some ''p2''\<rparr>,
         \<lparr>AC = [3, 1], AF = [Some (3 / 4), Some (1 / 4)], AN = 4,
            homozygote_count = [1, 0], project = Some ''p1''\<rparr>]])"
    by code_simp
  show ?thesis using ok r t by simp
qed

section \<open>Frequency data\<close>

lemma annotate_allele_call_stats:
  "annotate_allele (hl_call_stats gts n) =
     (if 1 < n
      then Inr \<lparr>AC = AC (hl_call_stats gts n) ! 1,
                AF = map_option (\<lambda>a. a ! 1) (AF (hl_call_stats gts n)),
                AN = AN (hl_call_stats gts n),
                homozygote_count = homozygote_count (hl_call_stats gts n) ! 1\<rparr>
      else Inl (HailError ''array index out of bounds''))"
proof (cases "AF (hl_call_stats gts n)")
  case None
  then show ?thesis
    by (simp add: annotate_allele_def hl_index_def hl_index_opt_def ebind_def hl_call_stats_lengths)
next
  case (Some a)
  then have "length a = n" by (rule hl_call_stats_lengths(3))
  then show ?thesis using Some
    by (simp add: annotate_allele_def hl_index_def hl_index_opt_def ebind_def hl_call_stats_lengths)
qed


lemma get_freq_expressions_cases:
  "get_freq_expressions ces n ng =
     (if 1 < n
      then Inr (map alt_allele_stats
                 (take 1 (adj_call_stats ces n ng) @
                  [hl_call_stats (map (\<lambda>ce. GT (snd ce)) ces) n] @
                  drop 1 (adj_call_stats ces n ng)))
      else Inl (HailError ''array index out of bounds''))"
proof (cases "1 < n")
  case True
  have "etraverse annotate_allele
          (take 1 (adj_call_stats ces n ng) @
           [hl_call_stats (map (\<lambda>ce. GT (snd ce)) ces) n] @
           drop 1 (adj_call_stats ces n ng)) =
        Inr (map alt_allele_stats
          (take 1 (adj_call_stats ces n ng) @
           [hl_call_stats (map (\<lambda>ce. GT (snd ce)) ces) n] @
           drop 1 (adj_call_stats ces n ng)))"
  proof (rule etraverse_Inr)
    fix x assume "x \<in> set (take 1 (adj_call_stats ces n ng) @
           [hl_call_stats (map (\<lambda>ce. GT (snd ce)) ces) n] @
           drop 1 (adj_call_stats ces n ng))"
    then have "x \<in> set (adj_call_stats ces n ng) \<or> x = hl_call_stats (map (\<lambda>ce. GT (snd ce)) ces) n"
      by (auto dest: in_set_takeD in_set_dropD)
    then obtain gts where "x = hl_call_stats gts n"
      by (auto simp: adj_call_stats_def agg_filter_def)
    then show "annotate_allele x = Inr (alt_allele_stats x)"
      using True by (simp add: annotate_allele_call_stats alt_allele_stats_def)
  qed
  then show ?thesis using True
    by (simp add: get_freq_expressions_def adj_call_stats_def Let_def)
next
  case False
  have "etraverse annotate_allele
          (take 1 (adj_call_stats ces n ng) @
           [hl_call_stats (map (\<lambda>ce. GT (snd ce)) ces) n] @
           drop 1 (adj_call_stats ces n ng)) = Inl (HailError ''array index out of bounds'')"
  proof (rule etraverse_all_Inl)
    fix x assume "x \<in> set (take 1 (adj_call_stats ces n ng) @
           [hl_call_stats (map (\<lambda>ce. GT (snd ce)) ces) n] @
           drop 1 (adj_call_stats ces n ng))"
    then have "x \<in> set (adj_call_stats ces n ng) \<or> x = hl_call_stats (map (\<lambda>ce. GT (snd ce)) ces) n"
      by (auto dest: in_set_takeD in_set_dropD)
    then obtain gts where "x = hl_call_stats gts n"
      by (auto simp: adj_call_stats_def agg_filter_def)
    then show "annotate_allele x = Inl (HailError ''array index out of bounds'')"
      using False by (simp add: annotate_allele_call_stats)
  qed simp
  then show ?thesis using False
    by (simp add: get_freq_expressions_def adj_call_stats_def Let_def)
qed

lemma length_adj_call_stats: "length (adj_call_stats ces n ng) = ng"
  by (simp add: adj_call_stats_def)

lemma get_freq_expressions_length:
  "get_freq_expressions ces n ng = Inr fs \<Longrightarrow> length fs = ng + 1"
  by (auto simp: get_freq_expressions_cases length_adj_call_stats split: if_splits)

lemma length_get_meta_expressions: "length (get_meta_expressions filters) = length filters + 1"
  by (simp add: get_meta_expressions_def py_insert_def)


lemma annotate_row_fields:
  assumes "annotate_row eng cf ca cpm scols fm ng pops v = Inr row"
  shows "fr_locus row = row_locus v"
    and "fr_alleles row = row_alleles v"
    and "get_freq_expressions (zip scols (row_entries v)) (length (row_alleles v)) ng = Inr (row_freq row)"
    and "popmax_expr (eng_sorted_freq eng) (row_freq row) fm pops = Inr (row_popmax row)"
    and "row_age_hist_het row =
           (if ca
            then Some (agg_filter (\<lambda>ce. hl_and (adj (snd ce)) (is_het (GT (snd ce))))
                         (\<lambda>xs. eng_hist eng (map (\<lambda>ce. age (fst ce)) xs) 30 80 10)
                         (zip scols (row_entries v)))
            else None)"
    and "row_age_hist_hom row =
           (if ca
            then Some (agg_filter (\<lambda>ce. hl_and (adj (snd ce)) (is_hom_var (GT (snd ce))))
                         (\<lambda>xs. eng_hist eng (map (\<lambda>ce. age (fst ce)) xs) 30 80 10)
                         (zip scols (row_entries v)))
            else None)"
    and "row_faf row =
           (if cf
            then Some (faf_expr (eng_filtering_allele_frequency eng) (eng_in_autosome_or_par eng)
                         (row_freq row) fm (Some (row_locus v)) pops)
            else None)"
    and "(row_project_max row \<noteq> None) = cpm"
proof -
  from assms obtain freq popmax pm where
    f: "get_freq_expressions (zip scols (row_entries v)) (length (row_alleles v)) ng = Inr freq"
    and p: "popmax_expr (eng_sorted_freq eng) freq fm pops = Inr popmax"
    and m: "(if cpm
             then ebind (project_max_expr (eng_sorted_project eng)
                           (map (\<lambda>ce. (project_id (fst ce), GT (snd ce))) (zip scols (row_entries v)))
                           (row_alleles v) 5)
                    (\<lambda>pm. case pm of
                            None \<Rightarrow> Inr (Some None)
                          | Some xs \<Rightarrow> ebind (hl_index xs 0) (\<lambda>x. Inr (Some (Some x))))
             else Inr None) = Inr pm"
    and r: "row = \<lparr>fr_locus = row_locus v,
             fr_alleles = row_alleles v,
             row_freq = freq,
             row_age_hist_het =
               (if ca
                then Some (agg_filter (\<lambda>ce. hl_and (adj (snd ce)) (is_het (GT (snd ce))))
                             (\<lambda>xs. eng_hist eng (map (\<lambda>ce. age (fst ce)) xs) 30 80 10) (zip scols (row_entries v)))
                else None),
             row_age_hist_hom =
               (if ca
                then Some (agg_filter (\<lambda>ce. hl_and (adj (snd ce)) (is_hom_var (GT (snd ce))))
                             (\<lambda>xs. eng_hist eng (map (\<lambda>ce. age (fst ce)) xs) 30 80 10) (zip scols (row_entries v)))
                else None),
             row_popmax = popmax,
             row_faf =
               (if cf
                then Some (faf_expr (eng_filtering_allele_frequency eng)
                             (eng_in_autosome_or_par eng) freq fm
                             (Some (row_locus v)) pops)
                else None),
             row_project_max = pm\<rparr>"
    unfolding annotate_row_def Let_def ebind_eq_Inr by blast
  show "fr_locus row = row_locus v" "fr_alleles row = row_alleles v" by (simp_all add: r)
  show "get_freq_expressions (zip scols (row_entries v)) (length (row_alleles v)) ng = Inr (row_freq row)"
    using f by (simp add: r)
  show "popmax_expr (eng_sorted_freq eng) (row_freq row) fm pops = Inr (row_popmax row)"
    using p by (simp add: r)
  show "row_age_hist_het row =
           (if ca
            then Some (agg_filter (\<lambda>ce. hl_and (adj (snd ce)) (is_het (GT (snd ce))))
                         (\<lambda>xs. eng_hist eng (map (\<lambda>ce. age (fst ce)) xs) 30 80 10)
                         (zip scols (row_entries v)))
            else None)" by (simp add: r)
  show "row_age_hist_hom row =
           (if ca
            then Some (agg_filter (\<lambda>ce. hl_and (adj (snd ce)) (is_hom_var (GT (snd ce))))
                         (\<lambda>xs. eng_hist eng (map (\<lambda>ce. age (fst ce)) xs) 30 80 10)
                         (zip scols (row_entries v)))
            else None)" by (simp add: r)
  show "row_faf row =
           (if cf
            then Some (faf_expr (eng_filtering_allele_frequency eng) (eng_in_autosome_or_par eng)
                         (row_freq row) fm (Some (row_locus v)) pops)
            else None)" by (simp add: r)
  show "(row_project_max row \<noteq> None) = cpm"
    using m by (auto simp: r ebind_eq_Inr split: if_splits option.splits)
qed

lemma popmax_expr_returns:
  assumes ok: "hl_sorted_ok hl_sorted"
  shows "\<exists>r. popmax_expr hl_sorted fs ms P = Inr r"
proof -
  define cand where "cand = filter (\<lambda>f. popmax_eligible P (call_stats.truncate f) (meta f))
          (map (\<lambda>x. call_stats.extend (fst x) (freq_meta_struct.fields (snd x))) (zip fs ms))"
  define srt where "srt = hl_sorted AF True cand"
  have pe: "popmax_expr hl_sorted fs ms P =
     (if length srt > 0
         then ebind (dict_index (meta (srt ! 0)) ''pop'')
                (\<lambda>p. Inr (Some \<lparr>AC = AC (srt ! 0), AF = AF (srt ! 0),
                                  AN = AN (srt ! 0),
                                  homozygote_count = homozygote_count (srt ! 0),
                                  pop = p\<rparr>))
         else Inr None)"
    unfolding popmax_expr_def Let_def popmax_filter_eligible srt_def cand_def ..
  show ?thesis
  proof (cases "length srt > 0")
    case False
    then show ?thesis using pe by simp
  next
    case True
    have "set srt = set cand" unfolding srt_def using ok by (rule hl_sorted_ok_set)
    then have "srt ! 0 \<in> set cand" using True nth_mem by blast
    then have "popmax_eligible P (call_stats.truncate (srt ! 0)) (meta (srt ! 0))"
      unfolding cand_def by simp
    then obtain p where "dict_get (meta (srt ! 0)) ''pop'' = Some p"
      unfolding popmax_eligible_def by blast
    then show ?thesis using pe True by (simp add: dict_index_def dict_get_def ebind_def)
  qed
qed

lemma annotate_row_returns:
  assumes ok1: "hl_sorted_ok (eng_sorted_freq eng)" and ok2: "hl_sorted_ok (eng_sorted_project eng)"
    and long: "1 < length (row_alleles v)"
  shows "\<exists>row. annotate_row eng cf ca cpm scols fm ng pops v = Inr row"
proof -
  obtain freq where f: "get_freq_expressions (zip scols (row_entries v)) (length (row_alleles v)) ng = Inr freq"
    using long by (simp add: get_freq_expressions_cases)
  obtain popmax where p: "popmax_expr (eng_sorted_freq eng) freq fm pops = Inr popmax"
    using popmax_expr_returns[OF ok1] by blast
  have "\<exists>pm. (if cpm
             then ebind (project_max_expr (eng_sorted_project eng)
                           (map (\<lambda>ce. (project_id (fst ce), GT (snd ce))) (zip scols (row_entries v)))
                           (row_alleles v) 5)
                    (\<lambda>pm. case pm of
                            None \<Rightarrow> Inr (Some None)
                          | Some xs \<Rightarrow> ebind (hl_index xs 0) (\<lambda>x. Inr (Some (Some x))))
             else Inr None) = Inr pm"
    using long by (simp add: project_max_expr_value[OF ok2 long] ebind_Inr hl_index_def)
  then obtain pm where m: "(if cpm
             then ebind (project_max_expr (eng_sorted_project eng)
                           (map (\<lambda>ce. (project_id (fst ce), GT (snd ce))) (zip scols (row_entries v)))
                           (row_alleles v) 5)
                    (\<lambda>pm. case pm of
                            None \<Rightarrow> Inr (Some None)
                          | Some xs \<Rightarrow> ebind (hl_index xs 0) (\<lambda>x. Inr (Some (Some x))))
             else Inr None) = Inr pm" ..
  show ?thesis
    unfolding annotate_row_def Let_def f ebind_Inr p m by blast
qed

lemma annotate_row_fails:
  assumes "annotate_row eng cf ca cpm scols fm ng pops v = Inl e"
    and ok1: "hl_sorted_ok (eng_sorted_freq eng)" and ok2: "hl_sorted_ok (eng_sorted_project eng)"
  shows "length (row_alleles v) < 2"
proof (rule ccontr)
  assume "\<not> length (row_alleles v) < 2"
  then have "1 < length (row_alleles v)" by simp
  from annotate_row_returns[OF ok1 ok2 this] assms(1) show False by (metis Inl_Inr_False)
qed


lemma generate_frequency_data_body_None:
  "generate_frequency_data_body eng mt dss cf ca cp cpm None =
     Inl (TypeError ''NoneType object is not iterable'')"
  by (simp add: generate_frequency_data_body_def Let_def ebind_def)

lemma generate_frequency_data_body_Some:
  "generate_frequency_data_body eng mt dss cf ca cp cpm (Some xs) =
     Inr (\<lparr>tbl_globals =
             \<lparr>g_freq_meta = get_meta_expressions
                 (sample_group_filters cp (aggregate_cut_data cp (cols mt)) dss),
              g_downsamplings = dss\<rparr>,
           tbl_rows =
             map (annotate_row eng cf ca cpm
                    (map (select_cols (sample_group_filters cp (aggregate_cut_data cp (cols mt)) dss))
                       (cols mt))
                    (get_meta_expressions
                       (sample_group_filters cp (aggregate_cut_data cp (cols mt)) dss))
                    (length (sample_group_filters cp (aggregate_cut_data cp (cols mt)) dss))
                    (set (map fst (cd_pop (aggregate_cut_data cp (cols mt)))) - set xs))
               (rows mt)\<rparr>,
          \<lparr>tbl_globals =
             \<lparr>g_freq_meta = get_meta_expressions
                 (sample_group_filters cp (aggregate_cut_data cp (cols mt)) dss),
              g_downsamplings = dss\<rparr>,
           tbl_rows =
             map (select_cols (sample_group_filters cp (aggregate_cut_data cp (cols mt)) dss))
               (cols mt)\<rparr>)"
  by (simp add: generate_frequency_data_body_def Let_def ebind_def)

lemma generate_frequency_data_no_downsampling:
  "generate_frequency_data eng mt cf ca cp False cpm rm =
     generate_frequency_data_body eng mt None cf ca cp cpm rm"
  by (simp add: generate_frequency_data_def ebind_def)

lemma generate_frequency_data_Inr:
  assumes "generate_frequency_data eng mt cf ca cp cd cpm rm = Inr (vt, st)"
  shows "\<not> cd" and "\<exists>xs. rm = Some xs"
    and "generate_frequency_data_body eng mt None cf ca cp cpm rm = Inr (vt, st)"
proof -
  show ncd: "\<not> cd"
    using assms
    by (auto simp: generate_frequency_data_def call_generate_downsamplings_cumulative_def ebind_def)
  then show b: "generate_frequency_data_body eng mt None cf ca cp cpm rm = Inr (vt, st)"
    using assms by (simp add: generate_frequency_data_no_downsampling)
  show "\<exists>xs. rm = Some xs"
    using b by (cases rm) (simp_all add: generate_frequency_data_body_None)
qed

lemma hl_filter_adj_carrier:
  "hl_filter (\<lambda>ce. hl_and (adj (snd ce)) (is_het (GT (snd ce)))) xs =
     filter (\<lambda>ce. adj (snd ce) = Some True \<and>
                   (case GT (snd ce) of None \<Rightarrow> False | Some g \<Rightarrow> het_call g)) xs"
  "hl_filter (\<lambda>ce. hl_and (adj (snd ce)) (is_hom_var (GT (snd ce)))) xs =
     filter (\<lambda>ce. adj (snd ce) = Some True \<and>
                   (case GT (snd ce) of None \<Rightarrow> False | Some g \<Rightarrow> hom_var_call g)) xs"
  unfolding hl_filter_def
  by (rule filter_cong; auto simp: hl_and_Some_True is_het_def is_hom_var_def het_call_def
        hom_var_call_def split: option.splits)+

lemma age_hist_carrier_ages:
  "agg_filter (\<lambda>ce. hl_and (adj (snd ce)) (is_het (GT (snd ce))))
     (\<lambda>xs. h (map (\<lambda>ce. age (fst ce)) xs))
     (zip (map (select_cols filters) cs) (row_entries v)) = h (carrier_ages het_call cs v)"
  "agg_filter (\<lambda>ce. hl_and (adj (snd ce)) (is_hom_var (GT (snd ce))))
     (\<lambda>xs. h (map (\<lambda>ce. age (fst ce)) xs))
     (zip (map (select_cols filters) cs) (row_entries v)) = h (carrier_ages hom_var_call cs v)"
  unfolding agg_filter_def hl_filter_adj_carrier carrier_ages_def
  by (simp_all add: zip_map1 filter_map comp_def split_def select_cols_def)

lemma example_engine_sorted_ok:
  "hl_sorted_ok (eng_sorted_freq example_engine)"
  "hl_sorted_ok (eng_sorted_project example_engine)"
  by (simp_all add: example_engine_def hl_stable_sorted_ok)

lemma length_select_cols_membership:
  "length (group_membership (select_cols filters c)) = length filters"
  by (simp add: select_cols_def)

lemma generate_frequency_data_tables:
  assumes "generate_frequency_data eng mt cf ca cp cd cpm rm = Inr (vt, st)"
  obtains xs filters where "rm = Some xs"
    and "filters = sample_group_filters cp (aggregate_cut_data cp (cols mt)) None"
    and "tbl_globals vt = \<lparr>g_freq_meta = get_meta_expressions filters, g_downsamplings = None\<rparr>"
    and "tbl_globals st = tbl_globals vt"
    and "tbl_rows st = map (select_cols filters) (cols mt)"
    and "tbl_rows vt =
           map (annotate_row eng cf ca cpm (map (select_cols filters) (cols mt))
                  (get_meta_expressions filters) (length filters)
                  (set (map fst (cd_pop (aggregate_cut_data cp (cols mt)))) - set xs))
             (rows mt)"
proof -
  from generate_frequency_data_Inr[OF assms] obtain xs where
    rm: "rm = Some xs" and
    b: "generate_frequency_data_body eng mt None cf ca cp cpm (Some xs) = Inr (vt, st)" by blast
  show ?thesis
    using b unfolding generate_frequency_data_body_Some
    by (intro that[OF rm refl]) auto
qed

lemma generate_frequency_data_row_returns:
  assumes g: "generate_frequency_data eng mt cf ca cp cd cpm rm = Inr (vt, st)"
    and ok1: "hl_sorted_ok (eng_sorted_freq eng)" and ok2: "hl_sorted_ok (eng_sorted_project eng)"
    and i: "i < length (rows mt)" and long: "1 < length (row_alleles (rows mt ! i))"
  shows "\<exists>row. tbl_rows vt ! i = Inr row"
proof -
  from generate_frequency_data_tables[OF g] obtain xs filters where
    rv: "tbl_rows vt =
           map (annotate_row eng cf ca cpm (map (select_cols filters) (cols mt))
                  (get_meta_expressions filters) (length filters)
                  (set (map fst (cd_pop (aggregate_cut_data cp (cols mt)))) - set xs))
             (rows mt)"
    by metis
  show ?thesis unfolding rv nth_map[OF i] by (rule annotate_row_returns[OF ok1 ok2 long])
qed

lemma example_returns:
  "\<exists>vt st. generate_frequency_data example_engine example_mt True True False False False (Some [])
     = Inr (vt, st)"
  by (simp add: generate_frequency_data_no_downsampling generate_frequency_data_body_Some)

section \<open>The claims about \<open>generate_frequency_data\<close>\<close>

text \<open>
  Claim C7. With \<open>calculate_downsampling\<close> set, \<open>generate_frequency_data\<close> raises the
  TypeError of a call that misses a required argument, whatever the matrix table and the
  other arguments are: \<open>_generate_downsamplings_cumulative\<close> is called without its
  \<open>downsamplings\<close>, in the first statement of the body, before anything is aggregated.
\<close>

theorem generate_frequency_data_downsampling_TypeError:
  "generate_frequency_data eng mt calculate_faf calculate_age_hists calculate_by_platform True
       calculate_project_max pops_to_remove_for_popmax =
     Inl (TypeError
       ''_generate_downsamplings_cumulative() missing 1 required positional argument: downsamplings'')"
  by (simp add: generate_frequency_data_def call_generate_downsamplings_cumulative_def ebind_def)

text \<open>
  Claim C6. With \<open>pops_to_remove_for_popmax = None\<close>, the default, every call raises a
  TypeError and returns no table; without downsampling it is the TypeError of iterating
  \<open>None\<close>. A call without downsampling that passes a list returns.
\<close>

theorem generate_frequency_data_default_pops_TypeError:
  "(\<exists>msg. generate_frequency_data eng mt calculate_faf calculate_age_hists calculate_by_platform
            calculate_downsampling calculate_project_max None = Inl (TypeError msg)) \<and>
   generate_frequency_data eng mt calculate_faf calculate_age_hists calculate_by_platform
       False calculate_project_max None = Inl (TypeError ''NoneType object is not iterable'') \<and>
   (\<exists>tables. generate_frequency_data eng mt calculate_faf calculate_age_hists
       calculate_by_platform False calculate_project_max (Some pops_to_remove) = Inr tables)"
proof -
  have a: "generate_frequency_data eng mt calculate_faf calculate_age_hists calculate_by_platform
       False calculate_project_max None = Inl (TypeError ''NoneType object is not iterable'')"
    by (simp add: generate_frequency_data_no_downsampling generate_frequency_data_body_None)
  have b: "\<exists>msg. generate_frequency_data eng mt calculate_faf calculate_age_hists calculate_by_platform
            calculate_downsampling calculate_project_max None = Inl (TypeError msg)"
  proof (cases calculate_downsampling)
    case True
    then show ?thesis
      by (simp add: generate_frequency_data_def call_generate_downsamplings_cumulative_def ebind_def)
  next
    case False
    then show ?thesis using a by simp
  qed
  have c: "\<exists>tables. generate_frequency_data eng mt calculate_faf calculate_age_hists
       calculate_by_platform False calculate_project_max (Some pops_to_remove) = Inr tables"
    by (simp add: generate_frequency_data_no_downsampling generate_frequency_data_body_Some)
  show ?thesis using a b c by blast
qed


text \<open>
  Claim C9. When \<open>generate_frequency_data\<close> returns with \<open>calculate_age_hists\<close> set, the
  variant table has one row per variant, and every row that evaluates holds two
  histograms over 30 to 80 in 10 bins: one of the ages of the samples whose entry passes
  the \<open>adj\<close> filter and is heterozygous, one of those whose entry passes it and is
  homozygous for a non-reference allele.
\<close>

theorem generate_frequency_data_age_hists:
  assumes "generate_frequency_data eng mt calculate_faf True calculate_by_platform
             calculate_downsampling calculate_project_max pops_to_remove_for_popmax = Inr (vt, st)"
  shows "length (tbl_rows vt) = length (rows mt) \<and>
         (\<forall>i row. i < length (rows mt) \<and> tbl_rows vt ! i = Inr row \<longrightarrow>
            row_age_hist_het row =
              Some (eng_hist eng (carrier_ages het_call (cols mt) (rows mt ! i)) 30 80 10) \<and>
            row_age_hist_hom row =
              Some (eng_hist eng (carrier_ages hom_var_call (cols mt) (rows mt ! i)) 30 80 10))"
proof -
  from generate_frequency_data_Inr[OF assms] obtain xs where
    b: "generate_frequency_data_body eng mt None calculate_faf True calculate_by_platform
          calculate_project_max (Some xs) = Inr (vt, st)" by blast
  define filters where "filters = sample_group_filters calculate_by_platform
      (aggregate_cut_data calculate_by_platform (cols mt)) None"
  have vt: "tbl_rows vt =
      map (annotate_row eng calculate_faf True calculate_project_max
             (map (select_cols filters) (cols mt)) (get_meta_expressions filters) (length filters)
             (set (map fst (cd_pop (aggregate_cut_data calculate_by_platform (cols mt)))) - set xs))
        (rows mt)"
    using b unfolding generate_frequency_data_body_Some filters_def by auto
  have len: "length (tbl_rows vt) = length (rows mt)" by (simp add: vt)
  have hists: "row_age_hist_het row =
              Some (eng_hist eng (carrier_ages het_call (cols mt) (rows mt ! i)) 30 80 10) \<and>
            row_age_hist_hom row =
              Some (eng_hist eng (carrier_ages hom_var_call (cols mt) (rows mt ! i)) 30 80 10)"
    if "i < length (rows mt) \<and> tbl_rows vt ! i = Inr row" for i row
  proof -
    have i: "i < length (rows mt)" and e: "tbl_rows vt ! i = Inr row" using that by simp_all
    have r: "annotate_row eng calculate_faf True calculate_project_max
             (map (select_cols filters) (cols mt)) (get_meta_expressions filters) (length filters)
             (set (map fst (cd_pop (aggregate_cut_data calculate_by_platform (cols mt)))) - set xs)
             (rows mt ! i) = Inr row"
      using e unfolding vt nth_map[OF i] .
    show ?thesis
      using annotate_row_fields(5,6)[OF r]
      by (simp add: age_hist_carrier_ages[where h = "\<lambda>ages. eng_hist eng ages 30 80 10"])
  qed
  show ?thesis using len hists by blast
qed


theorem generate_frequency_data_age_hists_witness:
  "\<exists>vt st row.
     generate_frequency_data example_engine example_mt True True False False False (Some [])
       = Inr (vt, st) \<and>
     tbl_rows vt ! 0 = Inr row \<and>
     row_age_hist_het row = Some ([Some 41], 30, 80, 10) \<and>
     row_age_hist_hom row = Some ([Some 67], 30, 80, 10)"
proof -
  obtain vt st where g:
    "generate_frequency_data example_engine example_mt True True False False False (Some [])
       = Inr (vt, st)"
    using example_returns by blast
  have "\<exists>row. tbl_rows vt ! 0 = Inr row"
    by (rule generate_frequency_data_row_returns[OF g example_engine_sorted_ok])
       (simp_all add: example_mt_def)
  then obtain row where r: "tbl_rows vt ! 0 = Inr row" ..
  have h: "carrier_ages het_call (cols example_mt) (rows example_mt ! 0) = [Some 41]"
          "carrier_ages hom_var_call (cols example_mt) (rows example_mt ! 0) = [Some 67]"
    by (simp_all add: carrier_ages_def example_mt_def example_sample_def het_call_def
          hom_var_call_def)
  have e: "eng_hist example_engine = (\<lambda>xs s e b. (xs, s, e, b))"
    by (simp add: example_engine_def)
  have l: "0 < length (rows example_mt)" by (simp add: example_mt_def)
  from generate_frequency_data_age_hists[OF g] l r
  have "row_age_hist_het row =
          Some (eng_hist example_engine
                  (carrier_ages het_call (cols example_mt) (rows example_mt ! 0)) 30 80 10) \<and>
        row_age_hist_hom row =
          Some (eng_hist example_engine
                  (carrier_ages hom_var_call (cols example_mt) (rows example_mt ! 0)) 30 80 10)"
    by blast
  then have "row_age_hist_het row = Some ([Some 41], 30, 80, 10) \<and>
        row_age_hist_hom row = Some ([Some 67], 30, 80, 10)"
    unfolding h e .
  then show ?thesis using g r by blast
qed

text \<open>
  Claim C10. \<open>generate_frequency_data\<close> returns exactly when downsampling is off and a
  list of populations to remove is passed, and then it returns two tables with the same
  globals: the sample table has one row per sample, in column order, with the sample's
  key, project and age and one group-membership flag per sample group; the variant table
  has one row per variant, in row order, and a row either fails to evaluate, on a variant
  with fewer than two alleles, or holds the locus, the alleles, one frequency struct per
  entry of \<open>freq_meta\<close>, popmax, and the age histograms, the filtering allele frequency
  and the project max exactly when their flags are set.
\<close>

theorem generate_frequency_data_two_tables:
  assumes ok1: "hl_sorted_ok (eng_sorted_freq eng)" and ok2: "hl_sorted_ok (eng_sorted_project eng)"
  shows "((\<exists>vt st. generate_frequency_data eng mt calculate_faf calculate_age_hists
                    calculate_by_platform calculate_downsampling calculate_project_max
                    pops_to_remove_for_popmax = Inr (vt, st)) \<longleftrightarrow>
          \<not> calculate_downsampling \<and> pops_to_remove_for_popmax \<noteq> None) \<and>
         (\<forall>vt st. generate_frequency_data eng mt calculate_faf calculate_age_hists
                    calculate_by_platform calculate_downsampling calculate_project_max
                    pops_to_remove_for_popmax = Inr (vt, st) \<longrightarrow>
            length (tbl_rows vt) = length (rows mt) \<and>
            length (tbl_rows st) = length (cols mt) \<and>
            tbl_globals st = tbl_globals vt \<and>
            (\<forall>j<length (cols mt).
               sd_s (tbl_rows st ! j) = col_s (cols mt ! j) \<and>
               project_id (tbl_rows st ! j) = meta_project_id (cols mt ! j) \<and>
               age (tbl_rows st ! j) = meta_age (cols mt ! j) \<and>
               length (group_membership (tbl_rows st ! j)) + 1 =
                 length (g_freq_meta (tbl_globals st))) \<and>
            (\<forall>i<length (rows mt).
               case tbl_rows vt ! i of
                 Inl e \<Rightarrow> length (row_alleles (rows mt ! i)) < 2
               | Inr row \<Rightarrow>
                   fr_locus row = row_locus (rows mt ! i) \<and>
                   fr_alleles row = row_alleles (rows mt ! i) \<and>
                   length (row_freq row) = length (g_freq_meta (tbl_globals vt)) \<and>
                   (row_age_hist_het row \<noteq> None) = calculate_age_hists \<and>
                   (row_age_hist_hom row \<noteq> None) = calculate_age_hists \<and>
                   (row_faf row \<noteq> None) = calculate_faf \<and>
                   (row_project_max row \<noteq> None) = calculate_project_max))"
proof -
  have ret: "(\<exists>vt st. generate_frequency_data eng mt calculate_faf calculate_age_hists
                    calculate_by_platform calculate_downsampling calculate_project_max
                    pops_to_remove_for_popmax = Inr (vt, st)) \<longleftrightarrow>
          \<not> calculate_downsampling \<and> pops_to_remove_for_popmax \<noteq> None"
  proof
    assume "\<exists>vt st. generate_frequency_data eng mt calculate_faf calculate_age_hists
                    calculate_by_platform calculate_downsampling calculate_project_max
                    pops_to_remove_for_popmax = Inr (vt, st)"
    then obtain vt st where g: "generate_frequency_data eng mt calculate_faf calculate_age_hists
                    calculate_by_platform calculate_downsampling calculate_project_max
                    pops_to_remove_for_popmax = Inr (vt, st)" by blast
    show "\<not> calculate_downsampling \<and> pops_to_remove_for_popmax \<noteq> None"
      using generate_frequency_data_Inr(1,2)[OF g] by auto
  next
    assume "\<not> calculate_downsampling \<and> pops_to_remove_for_popmax \<noteq> None"
    then show "\<exists>vt st. generate_frequency_data eng mt calculate_faf calculate_age_hists
                    calculate_by_platform calculate_downsampling calculate_project_max
                    pops_to_remove_for_popmax = Inr (vt, st)"
      by (auto simp: generate_frequency_data_no_downsampling generate_frequency_data_body_Some)
  qed
  have shape: "length (tbl_rows vt) = length (rows mt) \<and>
            length (tbl_rows st) = length (cols mt) \<and>
            tbl_globals st = tbl_globals vt \<and>
            (\<forall>j<length (cols mt).
               sd_s (tbl_rows st ! j) = col_s (cols mt ! j) \<and>
               project_id (tbl_rows st ! j) = meta_project_id (cols mt ! j) \<and>
               age (tbl_rows st ! j) = meta_age (cols mt ! j) \<and>
               length (group_membership (tbl_rows st ! j)) + 1 =
                 length (g_freq_meta (tbl_globals st))) \<and>
            (\<forall>i<length (rows mt).
               case tbl_rows vt ! i of
                 Inl e \<Rightarrow> length (row_alleles (rows mt ! i)) < 2
               | Inr row \<Rightarrow>
                   fr_locus row = row_locus (rows mt ! i) \<and>
                   fr_alleles row = row_alleles (rows mt ! i) \<and>
                   length (row_freq row) = length (g_freq_meta (tbl_globals vt)) \<and>
                   (row_age_hist_het row \<noteq> None) = calculate_age_hists \<and>
                   (row_age_hist_hom row \<noteq> None) = calculate_age_hists \<and>
                   (row_faf row \<noteq> None) = calculate_faf \<and>
                   (row_project_max row \<noteq> None) = calculate_project_max)"
    if g: "generate_frequency_data eng mt calculate_faf calculate_age_hists
                    calculate_by_platform calculate_downsampling calculate_project_max
                    pops_to_remove_for_popmax = Inr (vt, st)" for vt st
  proof -
    from generate_frequency_data_tables[OF g] obtain xs filters where
      gv: "tbl_globals vt = \<lparr>g_freq_meta = get_meta_expressions filters, g_downsamplings = None\<rparr>"
      and gs: "tbl_globals st = tbl_globals vt"
      and rs: "tbl_rows st = map (select_cols filters) (cols mt)"
      and rv: "tbl_rows vt =
           map (annotate_row eng calculate_faf calculate_age_hists calculate_project_max
                  (map (select_cols filters) (cols mt))
                  (get_meta_expressions filters) (length filters)
                  (set (map fst (cd_pop (aggregate_cut_data calculate_by_platform (cols mt)))) - set xs))
             (rows mt)"
      by metis
    have c: "sd_s (tbl_rows st ! j) = col_s (cols mt ! j) \<and>
               project_id (tbl_rows st ! j) = meta_project_id (cols mt ! j) \<and>
               age (tbl_rows st ! j) = meta_age (cols mt ! j) \<and>
               length (group_membership (tbl_rows st ! j)) + 1 =
                 length (g_freq_meta (tbl_globals st))" if "j < length (cols mt)" for j
      using that
      by (simp add: rs gs gv length_get_meta_expressions select_cols_def)
    have r: "case tbl_rows vt ! i of
                 Inl e \<Rightarrow> length (row_alleles (rows mt ! i)) < 2
               | Inr row \<Rightarrow>
                   fr_locus row = row_locus (rows mt ! i) \<and>
                   fr_alleles row = row_alleles (rows mt ! i) \<and>
                   length (row_freq row) = length (g_freq_meta (tbl_globals vt)) \<and>
                   (row_age_hist_het row \<noteq> None) = calculate_age_hists \<and>
                   (row_age_hist_hom row \<noteq> None) = calculate_age_hists \<and>
                   (row_faf row \<noteq> None) = calculate_faf \<and>
                   (row_project_max row \<noteq> None) = calculate_project_max"
      if i: "i < length (rows mt)" for i
    proof (cases "tbl_rows vt ! i")
      case (Inl e)
      then have "annotate_row eng calculate_faf calculate_age_hists calculate_project_max
                  (map (select_cols filters) (cols mt))
                  (get_meta_expressions filters) (length filters)
                  (set (map fst (cd_pop (aggregate_cut_data calculate_by_platform (cols mt)))) - set xs)
                  (rows mt ! i) = Inl e"
        unfolding rv nth_map[OF i] .
      from annotate_row_fails[OF this ok1 ok2] show ?thesis using Inl by simp
    next
      case (Inr row)
      then have a: "annotate_row eng calculate_faf calculate_age_hists calculate_project_max
                  (map (select_cols filters) (cols mt))
                  (get_meta_expressions filters) (length filters)
                  (set (map fst (cd_pop (aggregate_cut_data calculate_by_platform (cols mt)))) - set xs)
                  (rows mt ! i) = Inr row"
        unfolding rv nth_map[OF i] .
      have "length (row_freq row) = length (g_freq_meta (tbl_globals vt))"
        using get_freq_expressions_length[OF annotate_row_fields(3)[OF a]]
        by (simp add: gv length_get_meta_expressions)
      then show ?thesis
        using Inr annotate_row_fields(1,2,8)[OF a]
        by (simp add: annotate_row_fields(5,6,7)[OF a])
    qed
    show ?thesis using c r by (simp add: rv rs gs)
  qed
  show ?thesis using ret shape by blast
qed


theorem generate_frequency_data_two_tables_witness:
  "hl_sorted_ok (eng_sorted_freq example_engine) \<and>
   hl_sorted_ok (eng_sorted_project example_engine) \<and>
   (\<exists>vt st.
      generate_frequency_data example_engine example_mt True True False False False (Some [])
        = Inr (vt, st) \<and>
      length (tbl_rows vt) = 1 \<and> length (tbl_rows st) = 3 \<and> tbl_globals st = tbl_globals vt)"
proof -
  note t = generate_frequency_data_two_tables[OF example_engine_sorted_ok,
      of example_mt True True False False False "Some []"]
  from t obtain vt st where g:
    "generate_frequency_data example_engine example_mt True True False False False (Some [])
       = Inr (vt, st)" by auto
  from t g have "length (tbl_rows vt) = length (rows example_mt) \<and>
     length (tbl_rows st) = length (cols example_mt) \<and> tbl_globals st = tbl_globals vt"
    by blast
  then have "length (tbl_rows vt) = 1 \<and> length (tbl_rows st) = 3 \<and> tbl_globals st = tbl_globals vt"
    by (simp add: example_mt_def)
  then show ?thesis using g example_engine_sorted_ok by blast
qed

text \<open>
  Claim C8, at the default arguments: the call fails with a TypeError that Python raises
  in the body of \<open>generate_frequency_data\<close> itself, when it iterates \<open>None\<close>; no row of
  a table has been evaluated by the engine.
\<close>

theorem generate_frequency_data_defaults_raise_locally:
  "generate_frequency_data eng example_mt True True False False False None =
     Inl (TypeError ''NoneType object is not iterable'')"
  by (simp add: generate_frequency_data_no_downsampling generate_frequency_data_body_None)

text \<open>
  Claim C2, on the example: the group at index 10 is labelled sub-population \<open>x\<close> of
  population \<open>A\<close>, and its frequency struct counts both samples of sub-population \<open>x\<close>
  that pass \<open>adj\<close>, the one of population \<open>A\<close> and the one of population \<open>B\<close> (AC 3, AN
  4); the samples the label describes give AC 1, AN 2.
\<close>

theorem subpop_group_counts_other_population:
  "map_sum id
     (\<lambda>r. (g_freq_meta (tbl_globals (fst r)) ! 10,
           map (map_sum id (\<lambda>row. row_freq row ! 10)) (tbl_rows (fst r))))
     (generate_frequency_data example_engine example_mt True True False False False (Some []))
   = Inr ([(''subpop'', ''x''), (''pop'', ''A''), (''group'', ''adj'')],
          [Inr \<lparr>AC = 3, AF = Some (3 / 4), AN = 4, homozygote_count = 1\<rparr>]) \<and>
   alt_allele_stats
     (described_call_stats [(''subpop'', ''x''), (''pop'', ''A''), (''group'', ''adj'')]
        (cols example_mt) (rows example_mt ! 0))
   = \<lparr>AC = 1, AF = Some (1 / 2), AN = 2, homozygote_count = 0\<rparr>"
  by code_simp

section \<open>Downsampling assignment\<close>

lemma set_py_counter_keys: "set (map fst (py_counter xs)) = set xs"
  by (simp add: py_counter_def comp_def)

lemma distinct_py_counter_keys: "distinct (map fst (py_counter xs))"
  by (simp add: py_counter_def comp_def)

lemma py_counter_counts:
  "set (map (\<lambda>kv. int (snd kv)) (py_counter xs)) = (\<lambda>p. int (count_list xs p)) ` set xs"
  by (auto simp: py_counter_def)

lemma sum_list_int: "(\<Sum>x\<leftarrow>ys. int (f x)) = int (sum_list (map f ys))"
  by (induction ys) simp_all

lemma py_counter_total: "sum_list (map (\<lambda>kv. int (snd kv)) (py_counter xs)) = int (length xs)"
proof -
  have "sum_list (map (\<lambda>kv. int (snd kv)) (py_counter xs)) =
        int (sum_list (map (count_list xs) (rev (remdups (rev xs)))))"
    by (simp add: py_counter_def comp_def sum_list_int)
  also have "sum_list (map (count_list xs) (rev (remdups (rev xs)))) = sum (count_list xs) (set xs)"
    by (subst sum_list_distinct_conv_sum_set) simp_all
  also have "\<dots> = length xs" by (rule sum_count_set) simp_all
  finally show ?thesis .
qed

lemma py_counter_Nil: "py_counter xs = [] \<longleftrightarrow> xs = []"
  by (cases xs) (auto simp: py_counter_def)

lemma thresholds_props:
  fixes pd :: "string list" and ds :: "int list"
  defines "dss \<equiv> sort (filter (\<lambda>x. x \<le> sum_list (map (\<lambda>kv. int (snd kv)) (py_counter pd)))
       (sort (filter (\<lambda>x. x \<le> sum_list (map (\<lambda>kv. int (snd kv)) (py_counter pd)))
          (remdups (ds @ map (\<lambda>kv. int (snd kv)) (py_counter pd))))))"
  shows "sorted dss" and "distinct dss"
    and "set dss = {x \<in> set ds \<union> (\<lambda>p. int (count_list pd p)) ` set pd. x \<le> int (length pd)}"
  unfolding dss_def py_counter_total
  by (auto simp: py_counter_counts[simplified])

lemma find_append_cases:
  "find P (xs @ ys) = (case find P xs of None \<Rightarrow> find P ys | Some x \<Rightarrow> Some x)"
  by (induction xs) auto

lemma filter_nth_position:
  assumes "i < length xs" and "Q (xs ! i)"
  shows "length (filter Q (take i xs)) < length (filter Q xs)"
    and "filter Q xs ! length (filter Q (take i xs)) = xs ! i"
proof -
  have xs: "xs = take i xs @ xs ! i # drop (Suc i) xs"
    using assms(1) by (rule id_take_nth_drop)
  have f: "filter Q xs = filter Q (take i xs) @ xs ! i # filter Q (drop (Suc i) xs)"
    by (subst xs) (simp add: assms(2))
  have "length (filter Q xs) =
          Suc (length (filter Q (take i xs)) + length (filter Q (drop (Suc i) xs)))"
    using arg_cong[OF f, of length] by simp
  then show "length (filter Q (take i xs)) < length (filter Q xs)" by simp
  have "(filter Q (take i xs) @ xs ! i # filter Q (drop (Suc i) xs)) !
          length (filter Q (take i xs)) = xs ! i"
    by (rule nth_append_length)
  then show "filter Q xs ! length (filter Q (take i xs)) = xs ! i"
    using f by simp
qed

lemma find_unique_nth:
  assumes i: "i < length xs" and p: "P (xs ! i)"
    and u: "\<And>j. j < length xs \<Longrightarrow> P (xs ! j) \<Longrightarrow> j = i"
  shows "find P xs = Some (xs ! i)"
proof -
  have "\<not> P (xs ! j)" if "j < i" for j
  proof
    assume "P (xs ! j)"
    moreover have "j < length xs" using that i by simp
    ultimately have "j = i" by (rule u[rotated])
    then show False using that by simp
  qed
  then have "\<exists>k<length xs. P (xs ! k) \<and> xs ! i = xs ! k \<and> (\<forall>j<k. \<not> P (xs ! j))"
    using i p by (intro exI[of _ i]) simp
  then show ?thesis by (simp only: find_Some_iff)
qed

lemma length_filter_fst_zip:
  "length xs = length ys \<Longrightarrow>
   length (filter (\<lambda>row. Q (fst row)) (zip xs ys)) = length (filter Q xs)"
proof -
  assume l: "length xs = length ys"
  have "length (filter Q (map fst (zip xs ys))) = length (filter (\<lambda>row. Q (fst row)) (zip xs ys))"
    by (simp add: filter_map comp_def)
  then show ?thesis using l by simp
qed

lemma add_index_nth: "i < length xs \<Longrightarrow> add_index xs ! i = (xs ! i, int i)"
  by (simp add: add_index_def)

lemma length_add_index: "length (add_index xs) = length xs"
  by (simp add: add_index_def)

lemma hl_filter_pop:
  "hl_filter (\<lambda>row. hl_eq (meta_pop (fst row)) (Some p)) xs =
   filter (\<lambda>row. meta_pop (fst row) = Some p) xs"
  unfolding hl_filter_def
  by (rule filter_cong) (auto simp: hl_eq_def split: option.splits)


lemma find_concat_map_unique:
  assumes "p \<in> set ks" and "\<And>q. q \<in> set ks \<Longrightarrow> q \<noteq> p \<Longrightarrow> find P (T q) = None"
    and "find P (T p) = Some y"
  shows "find P (concat (map T ks)) = Some y"
  using assms
proof (induction ks)
  case Nil
  then show ?case by simp
next
  case (Cons k ks)
  show ?case
  proof (cases "k = p")
    case True
    then show ?thesis using Cons.prems(3) by (simp add: find_append_cases)
  next
    case False
    then have "find P (T k) = None" using Cons.prems(2) by simp
    moreover have "find P (concat (map T ks)) = Some y"
      using Cons.IH Cons.prems False by auto
    ultimately show ?thesis by (simp add: find_append_cases)
  qed
qed

lemma pop_table_find:
  fixes ord :: "sample list"
  assumes d: "distinct (map col_s ord)" and g: "g < length ord" and p: "meta_pop (ord ! g) = Some p"
  defines "ht \<equiv> add_index ord"
  shows "find (\<lambda>row. col_s (fst (fst row)) = col_s (ord ! g))
           (add_index (filter (\<lambda>row. meta_pop (fst row) = Some p) ht)) =
         Some ((ord ! g, int g),
               int (length (filter (\<lambda>c. meta_pop c = Some p) (take g ord))))"
    and "q \<noteq> p \<Longrightarrow>
         find (\<lambda>row. col_s (fst (fst row)) = col_s (ord ! g))
           (add_index (filter (\<lambda>row. meta_pop (fst row) = Some q) ht)) = None"
proof -
  let ?Q = "\<lambda>row :: sample \<times> int. meta_pop (fst row) = Some p"
  let ?F = "filter ?Q ht"
  let ?P = "\<lambda>row :: (sample \<times> int) \<times> int. col_s (fst (fst row)) = col_s (ord ! g)"
  let ?k = "length (filter ?Q (take g ht))"
  have lht: "length ht = length ord" by (simp add: ht_def length_add_index)
  have nth_ht: "ht ! j = (ord ! j, int j)" if "j < length ord" for j
    using that by (simp add: ht_def add_index_nth)
  have dord: "distinct ord" using d by (simp add: distinct_map)
  have dht: "distinct ht" unfolding ht_def add_index_def using dord by (rule distinct_zipI1)
  have same: "j = g" if "j < length ord" "col_s (ord ! j) = col_s (ord ! g)" for j
    using nth_eq_iff_index_eq[OF d, of j g] that g by simp
  have row_in_ht: "\<exists>m<length ord. x = (ord ! m, int m)" if "x \<in> set ht" for x
  proof -
    from that obtain m where "m < length ht" "ht ! m = x" by (auto simp: in_set_conv_nth)
    then show ?thesis using nth_ht lht by auto
  qed
  have Qg: "?Q (ht ! g)" using p g by (simp add: nth_ht)
  have gl: "g < length ht" using g lht by simp
  have kl: "?k < length ?F" and Fk: "?F ! ?k = ht ! g"
    using filter_nth_position[of g ht ?Q, OF gl Qg] by simp_all
  have Tk: "add_index ?F ! ?k = ((ord ! g, int g), int ?k)"
    using kl Fk g by (simp add: add_index_nth nth_ht)
  have uniq: "j = ?k" if j: "j < length (add_index ?F)" and Pj: "?P (add_index ?F ! j)" for j
  proof -
    have jl: "j < length ?F" using j by (simp add: length_add_index)
    then have "?F ! j \<in> set ht" using nth_mem[OF jl] by simp
    then obtain m where m: "m < length ord" "?F ! j = (ord ! m, int m)"
      using row_in_ht by blast
    have "col_s (ord ! m) = col_s (ord ! g)" using Pj jl m by (simp add: add_index_nth)
    then have "m = g" using m(1) by (rule same[rotated])
    then have "?F ! j = ?F ! ?k" using m(2) Fk g by (simp add: nth_ht)
    moreover have "distinct ?F" using dht by simp
    ultimately show ?thesis using jl kl by (simp add: nth_eq_iff_index_eq)
  qed
  have kl': "?k < length (add_index ?F)" using kl by (simp add: length_add_index)
  have "find ?P (add_index ?F) = Some (add_index ?F ! ?k)"
    using kl' _ uniq by (rule find_unique_nth) (simp add: Tk)
  moreover have "?k = length (filter (\<lambda>c. meta_pop c = Some p) (take g ord))"
    unfolding ht_def add_index_def take_zip
    by (rule length_filter_fst_zip) simp
  ultimately show "find ?P (add_index ?F) =
         Some ((ord ! g, int g),
               int (length (filter (\<lambda>c. meta_pop c = Some p) (take g ord))))"
    using Tk by simp
  show "find ?P (add_index (filter (\<lambda>row. meta_pop (fst row) = Some q) ht)) = None"
    if qp: "q \<noteq> p"
  proof -
    have "\<not> ?P row" if "row \<in> set (add_index (filter (\<lambda>row. meta_pop (fst row) = Some q) ht))" for row
    proof
      assume P: "?P row"
      from that have "(fst row, snd row) \<in> set (zip (filter (\<lambda>row. meta_pop (fst row) = Some q) ht)
             (map int [0..<length (filter (\<lambda>row. meta_pop (fst row) = Some q) ht)]))"
        unfolding add_index_def by simp
      then have "fst row \<in> set (filter (\<lambda>row. meta_pop (fst row) = Some q) ht)"
        by (rule set_zip_leftD)
      then have h: "fst row \<in> set ht" and mq: "meta_pop (fst (fst row)) = Some q" by simp_all
      from row_in_ht[OF h] obtain m where m: "m < length ord" "fst row = (ord ! m, int m)" by blast
      have "m = g" using P m by (intro same) simp_all
      then show False using mq m p qp by simp
    qed
    then show ?thesis unfolding find_None_iff by blast
  qed
qed


lemma generate_downsamplings_cumulative_Nil:
  "generate_downsamplings_cumulative r [] mt ds =
     Inl (UnboundLocalError ''local variable global_ht referenced before assignment'')"
  by (simp add: generate_downsamplings_cumulative_def Let_def py_counter_def)

lemma generate_downsamplings_cumulative_value:
  assumes "pd \<noteq> []"
  shows "generate_downsamplings_cumulative r pd mt ds =
     Inr (mt\<lparr>cols :=
               map (\<lambda>c. c\<lparr>downsampling :=
                             map_option (\<lambda>row. \<lparr>global_idx = snd (fst row), pop_idx = snd row\<rparr>)
                               (find (\<lambda>row. col_s (fst (fst row)) = col_s c)
                                  (concat (map (\<lambda>p. add_index
                                      (filter (\<lambda>row. meta_pop (fst row) = Some p)
                                         (add_index (sort_key r (cols mt)))))
                                    (map fst (py_counter pd)))))\<rparr>)
                 (cols mt)\<rparr>,
          sort (filter (\<lambda>x. x \<le> sum_list (map (\<lambda>kv. int (snd kv)) (py_counter pd)))
            (sort (filter (\<lambda>x. x \<le> sum_list (map (\<lambda>kv. int (snd kv)) (py_counter pd)))
               (remdups (ds @ map (\<lambda>kv. int (snd kv)) (py_counter pd)))))))"
  using assms
  by (simp add: generate_downsamplings_cumulative_def Let_def py_counter_Nil hl_filter_pop)

lemma downsampling_lookup:
  fixes cs :: "sample list"
  assumes pd: "map Some pd = map meta_pop cs" and ids: "distinct (map col_s cs)"
    and j: "j < length cs"
  shows "\<exists>g<length cs. sort_key r cs ! g = cs ! j \<and>
           find (\<lambda>row. col_s (fst (fst row)) = col_s (cs ! j))
             (concat (map (\<lambda>p. add_index
                              (filter (\<lambda>row. meta_pop (fst row) = Some p)
                                 (add_index (sort_key r cs))))
                        (map fst (py_counter pd)))) =
           Some ((cs ! j, int g),
                 int (length (filter (\<lambda>c. meta_pop c = meta_pop (cs ! j))
                                (take g (sort_key r cs)))))"
proof -
  let ?ord = "sort_key r cs"
  have lpd: "length pd = length cs" using arg_cong[OF pd, of length] by simp
  have pj: "meta_pop (cs ! j) = Some (pd ! j)"
    using arg_cong[OF pd, of "\<lambda>xs. xs ! j"] j lpd by simp
  have "cs ! j \<in> set ?ord" using j by simp
  then obtain g where g: "g < length ?ord" "?ord ! g = cs ! j"
    unfolding in_set_conv_nth by blast
  have d: "distinct (map col_s ?ord)"
  proof -
    have "mset (map col_s ?ord) = mset (map col_s cs)" by simp
    then show ?thesis using ids by (metis mset_eq_imp_distinct_iff)
  qed
  have p: "meta_pop (?ord ! g) = Some (pd ! j)" using g pj by simp
  have key: "pd ! j \<in> set (map fst (py_counter pd))"
    unfolding set_py_counter_keys using j lpd by simp
  have "find (\<lambda>row. col_s (fst (fst row)) = col_s (?ord ! g))
             (concat (map (\<lambda>p. add_index
                              (filter (\<lambda>row. meta_pop (fst row) = Some p) (add_index ?ord)))
                        (map fst (py_counter pd)))) =
        Some ((?ord ! g, int g),
              int (length (filter (\<lambda>c. meta_pop c = Some (pd ! j)) (take g ?ord))))"
    using key
  proof (rule find_concat_map_unique)
    show "find (\<lambda>row. col_s (fst (fst row)) = col_s (?ord ! g))
            (add_index (filter (\<lambda>row. meta_pop (fst row) = Some (pd ! j)) (add_index ?ord))) =
          Some ((?ord ! g, int g),
                int (length (filter (\<lambda>c. meta_pop c = Some (pd ! j)) (take g ?ord))))"
      by (rule pop_table_find(1)[OF d g(1) p])
    show "find (\<lambda>row. col_s (fst (fst row)) = col_s (?ord ! g))
            (add_index (filter (\<lambda>row. meta_pop (fst row) = Some q) (add_index ?ord))) = None"
      if "q \<in> set (map fst (py_counter pd))" "q \<noteq> pd ! j" for q
      by (rule pop_table_find(2)[OF d g(1) p that(2)])
  qed
  then show ?thesis using g pj by auto
qed


lemma map_filter_Some_map: "List.map_filter f xs = ys" if "map f xs = map Some ys"
  using that
proof (induction xs arbitrary: ys)
  case Nil
  then show ?case by (simp add: List.map_filter_simps)
next
  case (Cons x xs)
  then obtain y ys' where "ys = y # ys'" by (cases ys) auto
  then show ?case using Cons by (simp add: List.map_filter_simps)
qed

lemma aggregate_cut_data_downsampling:
  "aggregate_cut_data cp (map (\<lambda>c. c\<lparr>downsampling := f c\<rparr>) cs) = aggregate_cut_data cp cs"
  by (simp add: aggregate_cut_data_def List.map_filter_def comp_def filter_map
        cong: option.case_cong)

lemma cd_pop_counts:
  assumes "map Some pd = map meta_pop cs"
  shows "cd_pop (aggregate_cut_data cp cs) = hl_counter pd"
    and "set (hl_counter pd) = (\<lambda>p. (p, count_list pd p)) ` set pd"
proof -
  have "List.map_filter meta_pop cs = pd" using assms by (intro map_filter_Some_map) simp
  then show "cd_pop (aggregate_cut_data cp cs) = hl_counter pd"
    by (simp add: aggregate_cut_data_def)
  show "set (hl_counter pd) = (\<lambda>p. (p, count_list pd p)) ` set pd"
    by (simp add: hl_counter_def)
qed

lemma sample_group_filters_downsampling:
  "map fst (sample_group_filters cp cd (Some dss)) =
     map fst (sample_group_filters cp cd None) @
     map (\<lambda>ds. [(''downsampling'', str_int ds), (''pop'', ''global'')]) dss @
     [[(''downsampling'', str_int ds), (''pop'', fst pc)].
        ds \<leftarrow> dss, pc \<leftarrow> cd_pop cd, ds \<le> int (snd pc)]"
  by (simp add: sample_group_filters_def map_concat comp_def if_distrib[of "map fst"] cong: if_cong)


text \<open>
  Claim C5. Let \<open>pop_data\<close> hold the population of every sample and let the sample keys
  be distinct. With no sample the function raises. Otherwise it returns, and: the
  thresholds returned are sorted and without duplicates, and they are the requested
  thresholds and the populations' sample counts that do not exceed the total number of
  samples; every sample gets a downsampling struct whose global index is its position in
  the order of the random draws and whose population index is the number of samples of
  its population that come before it in that order; and the groups that
  \<open>sample_group_filters\<close> adds for these thresholds are one global group per threshold,
  then one group per threshold and population whose sample count the threshold does not
  exceed, the count of a population being the number of its samples.
\<close>

theorem generate_downsamplings_cumulative_assignment:
  assumes pd: "map Some pop_data = map meta_pop (cols mt)"
    and ids: "distinct (map col_s (cols mt))"
  shows "if cols mt = []
         then generate_downsamplings_cumulative r pop_data mt downsamplings =
                Inl (UnboundLocalError ''local variable global_ht referenced before assignment'')
         else (\<exists>mt' dss.
           generate_downsamplings_cumulative r pop_data mt downsamplings = Inr (mt', dss) \<and>
           sorted dss \<and> distinct dss \<and>
           set dss = {x \<in> set downsamplings \<union> (\<lambda>p. int (count_list pop_data p)) ` set pop_data.
                        x \<le> int (length (cols mt))} \<and>
           rows mt' = rows mt \<and> length (cols mt') = length (cols mt) \<and>
           (\<forall>j<length (cols mt). \<exists>g<length (cols mt).
              sort_key r (cols mt) ! g = cols mt ! j \<and>
              cols mt' ! j = (cols mt ! j)
                \<lparr>downsampling := Some
                   \<lparr>global_idx = int g,
                    pop_idx = int (length (filter (\<lambda>c. meta_pop c = meta_pop (cols mt ! j))
                                            (take g (sort_key r (cols mt)))))\<rparr>\<rparr>) \<and>
           set (cd_pop (aggregate_cut_data calculate_by_platform (cols mt'))) =
             (\<lambda>p. (p, count_list pop_data p)) ` set pop_data \<and>
           map fst (sample_group_filters calculate_by_platform
                      (aggregate_cut_data calculate_by_platform (cols mt')) (Some dss)) =
             map fst (sample_group_filters calculate_by_platform
                        (aggregate_cut_data calculate_by_platform (cols mt')) None) @
             map (\<lambda>ds. [(''downsampling'', str_int ds), (''pop'', ''global'')]) dss @
             [[(''downsampling'', str_int ds), (''pop'', fst pc)].
                ds \<leftarrow> dss,
                pc \<leftarrow> cd_pop (aggregate_cut_data calculate_by_platform (cols mt')),
                ds \<le> int (snd pc)])"
proof (cases "cols mt = []")
  case True
  then have "pop_data = []" using pd by simp
  then show ?thesis using True by (simp add: generate_downsamplings_cumulative_Nil)
next
  case False
  have lpd: "length pop_data = length (cols mt)" using arg_cong[OF pd, of length] by simp
  then have ne: "pop_data \<noteq> []" using False by auto
  define look where "look = (\<lambda>c :: sample. map_option (\<lambda>row. \<lparr>global_idx = snd (fst row), pop_idx = snd row\<rparr>)
                               (find (\<lambda>row. col_s (fst (fst row)) = col_s c)
                                  (concat (map (\<lambda>p. add_index
                                      (filter (\<lambda>row. meta_pop (fst row) = Some p)
                                         (add_index (sort_key r (cols mt)))))
                                    (map fst (py_counter pop_data))))))"
  define mt' where "mt' = mt\<lparr>cols := map (\<lambda>c. c\<lparr>downsampling := look c\<rparr>) (cols mt)\<rparr>"
  define dss where "dss =
          sort (filter (\<lambda>x. x \<le> sum_list (map (\<lambda>kv. int (snd kv)) (py_counter pop_data)))
            (sort (filter (\<lambda>x. x \<le> sum_list (map (\<lambda>kv. int (snd kv)) (py_counter pop_data)))
               (remdups (downsamplings @ map (\<lambda>kv. int (snd kv)) (py_counter pop_data))))))"
  have v: "generate_downsamplings_cumulative r pop_data mt downsamplings = Inr (mt', dss)"
    unfolding mt'_def dss_def look_def by (rule generate_downsamplings_cumulative_value[OF ne])
  have t1: "sorted dss" "distinct dss"
    "set dss = {x \<in> set downsamplings \<union> (\<lambda>p. int (count_list pop_data p)) ` set pop_data.
                        x \<le> int (length (cols mt))}"
    unfolding dss_def lpd[symmetric] by (rule thresholds_props)+
  have cm: "cols mt' = map (\<lambda>c. c\<lparr>downsampling := look c\<rparr>) (cols mt)" "rows mt' = rows mt"
    by (simp_all add: mt'_def)
  have t2: "\<exists>g<length (cols mt).
              sort_key r (cols mt) ! g = cols mt ! j \<and>
              cols mt' ! j = (cols mt ! j)
                \<lparr>downsampling := Some
                   \<lparr>global_idx = int g,
                    pop_idx = int (length (filter (\<lambda>c. meta_pop c = meta_pop (cols mt ! j))
                                            (take g (sort_key r (cols mt)))))\<rparr>\<rparr>"
    if j: "j < length (cols mt)" for j
  proof -
    from downsampling_lookup[OF pd ids j, of r] obtain g where
      g: "g < length (cols mt)" "sort_key r (cols mt) ! g = cols mt ! j"
      and f: "look (cols mt ! j) =
              Some \<lparr>global_idx = int g,
                    pop_idx = int (length (filter (\<lambda>c. meta_pop c = meta_pop (cols mt ! j))
                                            (take g (sort_key r (cols mt)))))\<rparr>"
      unfolding look_def by auto
    have "cols mt' ! j = (cols mt ! j)\<lparr>downsampling := look (cols mt ! j)\<rparr>"
      using j by (simp add: cm)
    then show ?thesis using g f by auto
  qed
  have cd: "aggregate_cut_data calculate_by_platform (cols mt') =
            aggregate_cut_data calculate_by_platform (cols mt)"
    unfolding cm by (rule aggregate_cut_data_downsampling)
  have t3: "set (cd_pop (aggregate_cut_data calculate_by_platform (cols mt'))) =
             (\<lambda>p. (p, count_list pop_data p)) ` set pop_data"
    unfolding cd cd_pop_counts(1)[OF pd] by (rule cd_pop_counts(2)[OF pd])
  have len: "length (cols mt') = length (cols mt)" by (simp add: cm)
  have t2': "\<forall>j<length (cols mt). \<exists>g<length (cols mt).
              sort_key r (cols mt) ! g = cols mt ! j \<and>
              cols mt' ! j = (cols mt ! j)
                \<lparr>downsampling := Some
                   \<lparr>global_idx = int g,
                    pop_idx = int (length (filter (\<lambda>c. meta_pop c = meta_pop (cols mt ! j))
                                            (take g (sort_key r (cols mt)))))\<rparr>\<rparr>"
    using t2 by blast
  show ?thesis
    unfolding if_not_P[OF False]
    by (intro exI[of _ mt'] exI[of _ dss] conjI v t1 cm(2) len t2' t3
          sample_group_filters_downsampling)
qed


theorem generate_downsamplings_cumulative_assignment_witness:
  "map Some [''A'', ''B'', ''A''] = map meta_pop (cols example_mt) \<and>
   distinct (map col_s (cols example_mt)) \<and>
   (\<exists>mt' dss.
      generate_downsamplings_cumulative (eng_rand_unif example_engine) [''A'', ''B'', ''A'']
        example_mt [1, 2, 10] = Inr (mt', dss) \<and> sorted dss \<and> distinct dss) \<and>
   map_sum id (\<lambda>res. (map downsampling (cols (fst res)), snd res))
     (generate_downsamplings_cumulative (eng_rand_unif example_engine) [''A'', ''B'', ''A'']
        example_mt [1, 2, 10]) =
   Inr ([Some \<lparr>global_idx = 2, pop_idx = 1\<rparr>, Some \<lparr>global_idx = 0, pop_idx = 0\<rparr>,
         Some \<lparr>global_idx = 1, pop_idx = 0\<rparr>], [1, 2])"
proof -
  have h1: "map Some [''A'', ''B'', ''A''] = map meta_pop (cols example_mt)"
    by (simp add: example_mt_def example_sample_def)
  have h2: "distinct (map col_s (cols example_mt))"
    by (simp add: example_mt_def example_sample_def)
  have ne: "cols example_mt \<noteq> []" by (simp add: example_mt_def)
  have e: "\<exists>mt' dss.
      generate_downsamplings_cumulative (eng_rand_unif example_engine) [''A'', ''B'', ''A'']
        example_mt [1, 2, 10] = Inr (mt', dss) \<and> sorted dss \<and> distinct dss"
    using generate_downsamplings_cumulative_assignment[OF h1 h2,
        of "eng_rand_unif example_engine" "[1, 2, 10]" False]
    unfolding if_not_P[OF ne]
    by (elim exE conjE) (intro exI conjI; assumption)
  have v: "map_sum id (\<lambda>res. (map downsampling (cols (fst res)), snd res))
     (generate_downsamplings_cumulative (eng_rand_unif example_engine) [''A'', ''B'', ''A'']
        example_mt [1, 2, 10]) =
   Inr ([Some \<lparr>global_idx = 2, pop_idx = 1\<rparr>, Some \<lparr>global_idx = 0, pop_idx = 0\<rparr>,
         Some \<lparr>global_idx = 1, pop_idx = 0\<rparr>], [1, 2])"
    by code_simp
  show ?thesis by (intro conjI h1 h2 e v)
qed

section \<open>Frequency groups and their meta\<close>

lemma sample_group_filters_Cons:
  "\<exists>rest. sample_group_filters cp cd dss = ([], \<lambda>c. Some True) # rest"
  by (simp add: sample_group_filters_def)

lemma get_meta_expressions_layout:
  assumes "filters = (m0, f0) # rest"
  shows "get_meta_expressions filters =
           dict_set m0 ''group'' ''adj'' # [(''group'', ''raw'')] #
           map (\<lambda>x. dict_set (fst x) ''group'' ''adj'') rest"
  by (simp add: assms get_meta_expressions_def py_insert_def)

lemma freq_meta_first_two:
  "get_meta_expressions (sample_group_filters cp cd dss) ! 0 = [(''group'', ''adj'')]"
  "get_meta_expressions (sample_group_filters cp cd dss) ! 1 = [(''group'', ''raw'')]"
proof -
  obtain rest where r: "sample_group_filters cp cd dss = ([], \<lambda>c. Some True) # rest"
    using sample_group_filters_Cons by blast
  show "get_meta_expressions (sample_group_filters cp cd dss) ! 0 = [(''group'', ''adj'')]"
    "get_meta_expressions (sample_group_filters cp cd dss) ! 1 = [(''group'', ''raw'')]"
    by (simp_all add: get_meta_expressions_layout[OF r] dict_set_def dict_contains_def)
qed

lemma freq_meta_later:
  assumes "2 \<le> i" "i \<le> length filters"
  shows "get_meta_expressions filters ! i = dict_set (fst (filters ! (i - 1))) ''group'' ''adj''"
proof -
  obtain k where k: "i = Suc (Suc k)" using assms(1) by (metis Suc_le_D numeral_2_eq_2 Suc_le_mono le0)
  then show ?thesis using assms(2)
    by (simp add: get_meta_expressions_def py_insert_def nth_append)
qed


lemma adj_call_stats_nth:
  assumes k: "k < length filters"
  shows "adj_call_stats (zip (map (select_cols filters) cs) es) n (length filters) ! k =
         hl_call_stats
           (map (\<lambda>ce. GT (snd ce))
              (filter (\<lambda>ce. snd (filters ! k) (fst ce) = Some True \<and> adj (snd ce) = Some True)
                 (zip cs es))) n"
proof -
  have f: "hl_filter (\<lambda>ce. hl_and (group_membership (fst ce) ! k) (adj (snd ce)))
             (zip (map (select_cols filters) cs) es) =
           map (\<lambda>ce. (select_cols filters (fst ce), snd ce))
             (filter (\<lambda>ce. snd (filters ! k) (fst ce) = Some True \<and> adj (snd ce) = Some True)
                (zip cs es))"
    using k
    by (simp add: hl_filter_def zip_map1 filter_map comp_def split_def hl_and_Some_True
          select_cols_def)
  show ?thesis
    using k by (simp add: adj_call_stats_def agg_filter_def f comp_def)
qed

lemma get_freq_expressions_nth:
  assumes g: "get_freq_expressions (zip (map (select_cols filters) cs) es) n (length filters) = Inr fs"
    and ne: "filters \<noteq> []"
  shows "fs ! 0 = alt_allele_stats
           (hl_call_stats
              (map (\<lambda>ce. GT (snd ce))
                 (filter (\<lambda>ce. snd (filters ! 0) (fst ce) = Some True \<and> adj (snd ce) = Some True)
                    (zip cs es))) n)"
    and "fs ! 1 = alt_allele_stats
           (hl_call_stats (map (\<lambda>ce. GT (snd ce)) (zip (map (select_cols filters) cs) es)) n)"
    and "\<And>k. 1 \<le> k \<Longrightarrow> k < length filters \<Longrightarrow>
           fs ! (k + 1) = alt_allele_stats
             (hl_call_stats
                (map (\<lambda>ce. GT (snd ce))
                   (filter (\<lambda>ce. snd (filters ! k) (fst ce) = Some True \<and> adj (snd ce) = Some True)
                      (zip cs es))) n)"
proof -
  let ?ces = "zip (map (select_cols filters) cs) es"
  let ?adj = "adj_call_stats ?ces n (length filters)"
  have fs: "fs = map alt_allele_stats
                 (take 1 ?adj @ [hl_call_stats (map (\<lambda>ce. GT (snd ce)) ?ces) n] @ drop 1 ?adj)"
    using g by (simp add: get_freq_expressions_cases split: if_splits)
  have l: "length ?adj = length filters" by (simp add: length_adj_call_stats)
  have pos: "0 < length filters" using ne by simp
  obtain a as where as: "?adj = a # as" using l pos by (cases ?adj) auto
  have a: "a = ?adj ! 0" using as by simp
  have fs': "fs = alt_allele_stats a #
                  alt_allele_stats (hl_call_stats (map (\<lambda>ce. GT (snd ce)) ?ces) n) #
                  map alt_allele_stats as"
    unfolding fs as by simp
  show "fs ! 0 = alt_allele_stats
           (hl_call_stats
              (map (\<lambda>ce. GT (snd ce))
                 (filter (\<lambda>ce. snd (filters ! 0) (fst ce) = Some True \<and> adj (snd ce) = Some True)
                    (zip cs es))) n)"
    unfolding fs' a using adj_call_stats_nth[OF pos, of cs es n] by simp
  show "fs ! 1 = alt_allele_stats (hl_call_stats (map (\<lambda>ce. GT (snd ce)) ?ces) n)"
    unfolding fs' by simp
  show "fs ! (k + 1) = alt_allele_stats
             (hl_call_stats
                (map (\<lambda>ce. GT (snd ce))
                   (filter (\<lambda>ce. snd (filters ! k) (fst ce) = Some True \<and> adj (snd ce) = Some True)
                      (zip cs es))) n)"
    if k: "1 \<le> k" "k < length filters" for k
  proof -
    obtain j where j: "k = Suc j" using k(1) by (cases k) auto
    have "j < length as" using k(2) l as j by simp
    then have "fs ! (k + 1) = alt_allele_stats (as ! j)" unfolding fs' j by simp
    also have "as ! j = ?adj ! k" unfolding as j by simp
    finally show ?thesis using adj_call_stats_nth[OF k(2), of cs es n] by simp
  qed
qed

lemma raw_call_stats_select_cols:
  "map (\<lambda>ce. GT (snd ce)) (zip (map (select_cols filters) cs) es) =
   map (\<lambda>ce. GT (snd ce)) (zip cs es)"
  by (simp add: zip_map1 comp_def split_def)

lemma digit_inj:
  "a < 10 \<Longrightarrow> b < 10 \<Longrightarrow> ''0123456789'' ! a = ''0123456789'' ! b \<Longrightarrow> a = b"
proof -
  assume "a < 10" "b < 10" "''0123456789'' ! a = ''0123456789'' ! b"
  moreover have "distinct ''0123456789''" by simp
  ultimately show ?thesis by (simp add: nth_eq_iff_index_eq)
qed

lemma digit_not_minus: "a < 10 \<Longrightarrow> ''0123456789'' ! a \<noteq> CHR ''-''"
proof -
  assume "a < 10"
  then have "''0123456789'' ! a \<in> set ''0123456789''" by (intro nth_mem) simp
  then show ?thesis by auto
qed

lemma str_nat_last: "last (str_nat n) = ''0123456789'' ! (n mod 10)"
  by (subst str_nat.simps) simp

lemma str_nat_butlast: "butlast (str_nat n) = (if n < 10 then [] else str_nat (n div 10))"
  by (subst str_nat.simps) simp

lemma str_nat_not_Nil: "str_nat n \<noteq> []"
  by (subst str_nat.simps) simp

lemma str_nat_hd: "hd (str_nat n) \<noteq> CHR ''-''"
proof (induction n rule: str_nat.induct)
  case (1 n)
  show ?case
  proof (cases "n < 10")
    case True
    then show ?thesis by (subst str_nat.simps) (simp add: digit_not_minus)
  next
    case False
    then show ?thesis using 1 by (subst str_nat.simps) (simp add: str_nat_not_Nil)
  qed
qed

lemma str_nat_inj: "str_nat n = str_nat m \<Longrightarrow> n = m"
proof (induction n arbitrary: m rule: str_nat.induct)
  case (1 n)
  have l: "n mod 10 = m mod 10"
    using arg_cong[OF "1.prems", of last] by (simp add: str_nat_last digit_inj)
  have b: "(if n < 10 then [] else str_nat (n div 10)) = (if m < 10 then [] else str_nat (m div 10))"
    using arg_cong[OF "1.prems", of butlast] by (simp only: str_nat_butlast)
  show ?case
  proof (cases "n < 10")
    case True
    then have "m < 10" using b str_nat_not_Nil[of "m div 10"] by (auto split: if_splits)
    then show ?thesis using True l by simp
  next
    case False
    then have m: "\<not> m < 10" using b str_nat_not_Nil[of "n div 10"] by (auto split: if_splits)
    then have "str_nat (n div 10) = str_nat (m div 10)" using b False by simp
    then have "n div 10 = m div 10" using "1.IH" False by simp
    then show ?thesis using l by (metis div_mult_mod_eq)
  qed
qed

lemma str_int_inj: "str_int i = str_int j \<Longrightarrow> i = j"
proof -
  assume e: "str_int i = str_int j"
  show ?thesis
  proof (cases "i < 0"; cases "j < 0")
    assume "i < 0" "j < 0"
    then have "nat (- i) = nat (- j)" using e by (simp add: str_int_def str_nat_inj)
    then show ?thesis using \<open>i < 0\<close> \<open>j < 0\<close> by simp
  next
    assume "i < 0" "\<not> j < 0"
    then have "hd (str_nat (nat j)) = CHR ''-''" using e by (simp add: str_int_def) (metis list.sel(1))
    then show ?thesis using str_nat_hd by blast
  next
    assume "\<not> i < 0" "j < 0"
    then have "hd (str_nat (nat i)) = CHR ''-''" using e by (simp add: str_int_def)
    then show ?thesis using str_nat_hd by blast
  next
    assume "\<not> i < 0" "\<not> j < 0"
    then have "nat i = nat j" using e by (simp add: str_int_def str_nat_inj)
    then show ?thesis using \<open>\<not> i < 0\<close> \<open>\<not> j < 0\<close> by simp
  qed
qed


lemma dict_get_dict_set: "dict_get (dict_set d k v) k = Some v"
proof (cases "dict_contains d k")
  case True
  have "map_of (map (\<lambda>kv. if fst kv = k then (k, v) else kv) d) k = Some v"
    if "map_of d k \<noteq> None" for d :: dict
    using that by (induction d) auto
  then show ?thesis using True by (simp add: dict_get_def dict_set_def dict_contains_def)
next
  case False
  then show ?thesis
    by (simp add: dict_get_def dict_set_def dict_contains_def map_add_Some_iff)
qed

lemma described_sample_append:
  "described_sample (m @ m') c \<longleftrightarrow> described_sample m c \<and> described_sample m' c"
  by (simp add: described_sample_def)

lemma group_filter_described:
  assumes mf: "(m, f) \<in> set (sample_group_filters cp cd None)"
    and ns: "\<not> dict_contains m ''subpop''"
  shows "(f c = Some True) = described_sample (dict_set m ''group'' ''adj'') c"
  using mf ns
  by (auto simp: sample_group_filters_def described_sample_def dict_set_def dict_contains_def
        hl_eq_Some_True hl_and_Some_True str_int_inj split: if_splits option.splits)

lemma group_filter_subpop:
  assumes mf: "(m, f) \<in> set (sample_group_filters cp cd None)"
    and s: "dict_get m ''subpop'' = Some sp"
  shows "(f c = Some True) = (meta_subpop c = Some sp)"
  using mf s
  by (auto simp: sample_group_filters_def dict_get_def hl_eq_Some_True split: if_splits)


lemma dict_contains_dict_set_other:
  "k' \<noteq> k \<Longrightarrow> dict_contains (dict_set d k v) k' = dict_contains d k'"
proof -
  assume n: "k' \<noteq> k"
  have "map_of (map (\<lambda>kv. if fst kv = k then (k, v) else kv) d) k' = map_of d k'" for d :: dict
    using n by (induction d) auto
  then show ?thesis using n
    by (simp add: dict_contains_def dict_set_def map_add_def split: option.splits)
qed

lemma described_call_stats_raw:
  "described_call_stats [(''group'', ''raw'')] cs v =
     hl_call_stats (map (\<lambda>ce. GT (snd ce)) (zip cs (row_entries v))) (length (row_alleles v))"
  by (simp add: described_call_stats_def described_entry_def dict_get_def)

lemma described_call_stats_adj:
  assumes "dict_get m ''group'' = Some ''adj''"
    and "\<And>c. (f c = Some True) = described_sample m c"
  shows "described_call_stats m cs v =
     hl_call_stats
       (map (\<lambda>ce. GT (snd ce))
          (filter (\<lambda>ce. f (fst ce) = Some True \<and> adj (snd ce) = Some True)
             (zip cs (row_entries v))))
       (length (row_alleles v))"
proof -
  have "filter (\<lambda>ce. described_entry m (fst ce) (snd ce)) (zip cs (row_entries v)) =
        filter (\<lambda>ce. f (fst ce) = Some True \<and> adj (snd ce) = Some True) (zip cs (row_entries v))"
    by (rule filter_cong) (auto simp: described_entry_def assms)
  then show ?thesis by (simp add: described_call_stats_def)
qed

text \<open>
  Where frequency and meta agree. On every returning call and every row that evaluates,
  \<open>freq\<close> is as long as \<open>freq_meta\<close>, index 0 is the global \<open>adj\<close> group and index 1
  the \<open>raw\<close> group, and at every index whose meta has no \<open>subpop\<close> key the frequency
  struct is aggregated over exactly the entries the meta describes.
\<close>

proposition freq_aligned_with_freq_meta:
  assumes g: "generate_frequency_data eng mt cf ca cp cd cpm rm = Inr (vt, st)"
    and i: "i < length (rows mt)" and r: "tbl_rows vt ! i = Inr row"
  shows "length (row_freq row) = length (g_freq_meta (tbl_globals vt))"
    and "g_freq_meta (tbl_globals vt) ! 0 = [(''group'', ''adj'')]"
    and "g_freq_meta (tbl_globals vt) ! 1 = [(''group'', ''raw'')]"
    and "\<And>k. k < length (g_freq_meta (tbl_globals vt)) \<Longrightarrow>
           \<not> dict_contains (g_freq_meta (tbl_globals vt) ! k) ''subpop'' \<Longrightarrow>
           row_freq row ! k =
             alt_allele_stats
               (described_call_stats (g_freq_meta (tbl_globals vt) ! k) (cols mt) (rows mt ! i))"
proof -
  from generate_frequency_data_tables[OF g] obtain xs filters where
    fl: "filters = sample_group_filters cp (aggregate_cut_data cp (cols mt)) None"
    and gv: "tbl_globals vt = \<lparr>g_freq_meta = get_meta_expressions filters, g_downsamplings = None\<rparr>"
    and rv: "tbl_rows vt =
           map (annotate_row eng cf ca cpm (map (select_cols filters) (cols mt))
                  (get_meta_expressions filters) (length filters)
                  (set (map fst (cd_pop (aggregate_cut_data cp (cols mt)))) - set xs))
             (rows mt)"
    by metis
  let ?v = "rows mt ! i"
  have a: "annotate_row eng cf ca cpm (map (select_cols filters) (cols mt))
                  (get_meta_expressions filters) (length filters)
                  (set (map fst (cd_pop (aggregate_cut_data cp (cols mt)))) - set xs) ?v = Inr row"
    using r unfolding rv nth_map[OF i] .
  note gf = annotate_row_fields(3)[OF a]
  have meta: "g_freq_meta (tbl_globals vt) = get_meta_expressions filters" by (simp add: gv)
  obtain rest where rest: "filters = ([], \<lambda>c. Some True) # rest"
    unfolding fl using sample_group_filters_Cons by blast
  then have ne: "filters \<noteq> []" by simp
  show len: "length (row_freq row) = length (g_freq_meta (tbl_globals vt))"
    using get_freq_expressions_length[OF gf] by (simp add: meta length_get_meta_expressions)
  show m0: "g_freq_meta (tbl_globals vt) ! 0 = [(''group'', ''adj'')]"
    and m1: "g_freq_meta (tbl_globals vt) ! 1 = [(''group'', ''raw'')]"
    unfolding meta fl by (rule freq_meta_first_two)+
  show "row_freq row ! k =
             alt_allele_stats
               (described_call_stats (g_freq_meta (tbl_globals vt) ! k) (cols mt) ?v)"
    if k: "k < length (g_freq_meta (tbl_globals vt))"
      and ns: "\<not> dict_contains (g_freq_meta (tbl_globals vt) ! k) ''subpop''" for k
  proof -
    consider "k = 0" | "k = 1" | "2 \<le> k" by linarith
    then show ?thesis
    proof cases
      case 1
      have d: "described_call_stats [(''group'', ''adj'')] (cols mt) ?v =
               hl_call_stats
                 (map (\<lambda>ce. GT (snd ce))
                    (filter (\<lambda>ce. snd (filters ! 0) (fst ce) = Some True \<and> adj (snd ce) = Some True)
                       (zip (cols mt) (row_entries ?v))))
                 (length (row_alleles ?v))"
        by (rule described_call_stats_adj)
           (simp_all add: dict_get_def rest described_sample_def)
      show ?thesis unfolding 1 m0 d by (rule get_freq_expressions_nth(1)[OF gf ne])
    next
      case 2
      show ?thesis
        unfolding 2 m1 described_call_stats_raw raw_call_stats_select_cols[symmetric, where filters = filters]
        by (rule get_freq_expressions_nth(2)[OF gf ne])
    next
      case 3
      define j where "j = k - 1"
      have j: "1 \<le> j" "j < length filters" "k = j + 1"
        using 3 k by (simp_all add: j_def meta length_get_meta_expressions)
      have mk: "g_freq_meta (tbl_globals vt) ! k = dict_set (fst (filters ! j)) ''group'' ''adj''"
        unfolding meta using freq_meta_later[of k filters] 3 j by simp
      have mem: "(fst (filters ! j), snd (filters ! j)) \<in> set (sample_group_filters cp (aggregate_cut_data cp (cols mt)) None)"
        using j(2) unfolding fl[symmetric] by simp
      have ns': "\<not> dict_contains (fst (filters ! j)) ''subpop''"
        using ns unfolding mk by (simp add: dict_contains_dict_set_other)
      have d: "described_call_stats (dict_set (fst (filters ! j)) ''group'' ''adj'') (cols mt) ?v =
               hl_call_stats
                 (map (\<lambda>ce. GT (snd ce))
                    (filter (\<lambda>ce. snd (filters ! j) (fst ce) = Some True \<and> adj (snd ce) = Some True)
                       (zip (cols mt) (row_entries ?v))))
                 (length (row_alleles ?v))"
        by (rule described_call_stats_adj[OF dict_get_dict_set group_filter_described[OF mem ns']])
      show ?thesis unfolding mk d unfolding j(3) by (rule get_freq_expressions_nth(3)[OF gf ne j(1,2)])
    qed
  qed
qed


lemma dict_get_dict_set_other:
  "k' \<noteq> k \<Longrightarrow> dict_get (dict_set d k v) k' = dict_get d k'"
proof -
  assume n: "k' \<noteq> k"
  have "map_of (map (\<lambda>kv. if fst kv = k then (k, v) else kv) d) k' = map_of d k'" for d :: dict
    using n by (induction d) auto
  then show ?thesis using n
    by (simp add: dict_get_def dict_set_def map_add_def split: option.splits)
qed

text \<open>
  At an index whose meta names a sub-population, the struct is aggregated over the \<open>adj\<close>
  entries of all samples of that sub-population, whatever their population.
\<close>

proposition subpop_group_selects_by_subpop_only:
  assumes g: "generate_frequency_data eng mt cf ca cp cd cpm rm = Inr (vt, st)"
    and i: "i < length (rows mt)" and r: "tbl_rows vt ! i = Inr row"
    and k: "k < length (g_freq_meta (tbl_globals vt))"
    and s: "dict_get (g_freq_meta (tbl_globals vt) ! k) ''subpop'' = Some sp"
  shows "row_freq row ! k =
           alt_allele_stats
             (hl_call_stats
                (map (\<lambda>ce. GT (snd ce))
                   (filter (\<lambda>ce. meta_subpop (fst ce) = Some sp \<and> adj (snd ce) = Some True)
                      (zip (cols mt) (row_entries (rows mt ! i)))))
                (length (row_alleles (rows mt ! i))))"
proof -
  from generate_frequency_data_tables[OF g] obtain xs filters where
    fl: "filters = sample_group_filters cp (aggregate_cut_data cp (cols mt)) None"
    and gv: "tbl_globals vt = \<lparr>g_freq_meta = get_meta_expressions filters, g_downsamplings = None\<rparr>"
    and rv: "tbl_rows vt =
           map (annotate_row eng cf ca cpm (map (select_cols filters) (cols mt))
                  (get_meta_expressions filters) (length filters)
                  (set (map fst (cd_pop (aggregate_cut_data cp (cols mt)))) - set xs))
             (rows mt)"
    by metis
  let ?v = "rows mt ! i"
  have a: "annotate_row eng cf ca cpm (map (select_cols filters) (cols mt))
                  (get_meta_expressions filters) (length filters)
                  (set (map fst (cd_pop (aggregate_cut_data cp (cols mt)))) - set xs) ?v = Inr row"
    using r unfolding rv nth_map[OF i] .
  note gf = annotate_row_fields(3)[OF a]
  have meta: "g_freq_meta (tbl_globals vt) = get_meta_expressions filters" by (simp add: gv)
  obtain rest where rest: "filters = ([], \<lambda>c. Some True) # rest"
    unfolding fl using sample_group_filters_Cons by blast
  then have ne: "filters \<noteq> []" by simp
  have m0: "g_freq_meta (tbl_globals vt) ! 0 = [(''group'', ''adj'')]"
    and m1: "g_freq_meta (tbl_globals vt) ! 1 = [(''group'', ''raw'')]"
    unfolding meta fl by (rule freq_meta_first_two)+
  have "k \<noteq> 0"
  proof
    assume "k = 0"
    then show False using s m0 by (simp add: dict_get_def)
  qed
  moreover have "k \<noteq> 1"
  proof
    assume "k = 1"
    then show False using s m1 by (simp add: dict_get_def)
  qed
  ultimately have k2: "2 \<le> k" by simp
  define j where "j = k - 1"
  have j: "1 \<le> j" "j < length filters" "k = j + 1"
    using k2 k by (simp_all add: j_def meta length_get_meta_expressions)
  have mk: "g_freq_meta (tbl_globals vt) ! k = dict_set (fst (filters ! j)) ''group'' ''adj''"
    unfolding meta using freq_meta_later[of k filters] k2 j by simp
  have mem: "(fst (filters ! j), snd (filters ! j)) \<in>
               set (sample_group_filters cp (aggregate_cut_data cp (cols mt)) None)"
    using j(2) unfolding fl[symmetric] by simp
  have s': "dict_get (fst (filters ! j)) ''subpop'' = Some sp"
    using s unfolding mk by (simp add: dict_get_dict_set_other)
  have e: "filter (\<lambda>ce. snd (filters ! j) (fst ce) = Some True \<and> adj (snd ce) = Some True)
             (zip (cols mt) (row_entries ?v)) =
           filter (\<lambda>ce. meta_subpop (fst ce) = Some sp \<and> adj (snd ce) = Some True)
             (zip (cols mt) (row_entries ?v))"
    by (rule filter_cong) (simp_all add: group_filter_subpop[OF mem s'])
  show ?thesis
    unfolding j(3) e[symmetric] by (rule get_freq_expressions_nth(3)[OF gf ne j(1,2)])
qed

end
